theory Spec2Isabelle
  imports Main "HOL-Library.Char_ord" "HOL-Library.List_Lexorder" "HOL-Library.Product_Lexorder"
begin

section \<open>Python values, errors and the catalogue\<close>

text \<open>
  The query layer of \<^verbatim>\<open>xbob/db/scface/query.py\<close> is dynamically typed: a selection
  argument is \<^verbatim>\<open>None\<close>, a scalar (a string or an integer) or a tuple/list of scalars.
  \<open>pyval\<close> is that value space; tuples and lists are both \<open>PSeq\<close>, as the only test the
  source makes on them is \<^verbatim>\<open>isinstance(l, (tuple, list))\<close>.
\<close>

datatype pyval = PNone | PInt int | PStr string | PSeq "pyval list"

text \<open>Python truth value of an argument, as used by \<^verbatim>\<open>if not l\<close>.\<close>

fun truthy :: "pyval \<Rightarrow> bool" where
  "truthy PNone = False"
| "truthy (PInt i) = (i \<noteq> 0)"
| "truthy (PStr s) = (s \<noteq> [])"
| "truthy (PSeq ks) = (ks \<noteq> [])"

text \<open>\<^verbatim>\<open>isinstance(l, (tuple, list))\<close>.\<close>

fun is_tuple_or_list :: "pyval \<Rightarrow> bool" where
  "is_tuple_or_list (PSeq ks) = True"
| "is_tuple_or_list v = False"

text \<open>
  Every exception the modelled code can raise. \<open>UninitializedStore\<close> is the
  \<^verbatim>\<open>RuntimeError\<close> of \<^verbatim>\<open>assert_validity\<close>; \<open>InvalidSelector obj k valid\<close> is the
  \<^verbatim>\<open>RuntimeError\<close> of \<^verbatim>\<open>__check_validity__\<close>, carrying the three values its message is
  formatted from; \<open>AttributeError\<close> is what \<^verbatim>\<open>self.session.query\<close> raises when
  \<^verbatim>\<open>self.session\<close> is \<^verbatim>\<open>None\<close>; \<open>NameError\<close> is the read of an unbound name;
  \<open>NoResultFound\<close> and \<open>MultipleResultsFound\<close> are raised by \<^verbatim>\<open>Query.one()\<close>.
\<close>

datatype error =
    UninitializedStore
  | InvalidSelector string pyval "pyval list"
  | AttributeError
  | NameError string
  | NoResultFound
  | MultipleResultsFound

text \<open>Sequencing of computations that may raise: the first exception wins.\<close>

definition ebind :: "error + 'a \<Rightarrow> ('a \<Rightarrow> error + 'b) \<Rightarrow> error + 'b" where
  "ebind m f = (case m of Inl e \<Rightarrow> Inl e | Inr x \<Rightarrow> f x)"

section \<open>The selector validator\<close>

text \<open>
  The loop of \<^verbatim>\<open>__check_validity__\<close>: the first element that is not in \<open>valid\<close>
  raises; when the loop ends the sequence itself is returned.
\<close>

fun check_elements :: "pyval list \<Rightarrow> string \<Rightarrow> pyval list \<Rightarrow> error + unit" where
  "check_elements [] obj valid = Inr ()"
| "check_elements (k # ks) obj valid =
     (if k \<notin> set valid then Inl (InvalidSelector obj k valid)
      else check_elements ks obj valid)"

text \<open>
  \<^verbatim>\<open>
  def __check_validity__(self, l, obj, valid, default):
    if not l: return default
    elif not isinstance(l, (tuple,list)):
      return self.__check_validity__((l,), obj, valid, default)
    for k in l:
      if k not in valid:
        raise RuntimeError, 'Invalid %s "%s". Valid values are %s, ...' % (obj, k, valid)
    return l
  \<close>
  The result is the list of elements of the returned sequence.
\<close>

function check_validity ::
  "pyval \<Rightarrow> string \<Rightarrow> pyval list \<Rightarrow> pyval list \<Rightarrow> error + pyval list" where
  "check_validity l obj valid dflt =
     (if \<not> truthy l then Inr dflt
      else (case l of
              PSeq ks \<Rightarrow> ebind (check_elements ks obj valid) (\<lambda>_. Inr ks)
            | _ \<Rightarrow> check_validity (PSeq [l]) obj valid dflt))"
  by pat_completeness auto
termination
  by (relation "measure (\<lambda>(l, obj, valid, dflt). if is_tuple_or_list l then 0 else 1)") auto

declare check_validity.simps [simp del]

section \<open>The catalogue\<close>

text \<open>
  Modelled from the spec: the entity classes \<^verbatim>\<open>Client\<close>, \<^verbatim>\<open>Subworld\<close>,
  \<^verbatim>\<open>File\<close>, \<^verbatim>\<open>Protocol\<close> and \<^verbatim>\<open>ProtocolPurpose\<close> of \<^verbatim>\<open>models.py\<close>, which is not
  among the sources. The columns are those \<^verbatim>\<open>query.py\<close> reads
  (\<^verbatim>\<open>Client.id\<close>, \<^verbatim>\<open>Client.sgroup\<close>, \<^verbatim>\<open>File.client_id\<close>, \<^verbatim>\<open>File.camera\<close>, ...),
  prefixed by the entity, with the types section 3 of the specification gives them:
  identifiers and birth years are integers, every label and name is a string. A
  row has a primary key \<open>id\<close>; \<^verbatim>\<open>File.client_id\<close> and the protocol of a
  \<^verbatim>\<open>ProtocolPurpose\<close> are foreign keys.
\<close>

record Client =
  c_id :: int
  c_sgroup :: string
  c_gender :: string
  c_birthyear :: int

record Subworld =
  sw_id :: int
  sw_name :: string

record File =
  f_id :: int
  f_client_id :: int
  f_path :: string
  f_camera :: string
  f_distance :: string

record Protocol =
  p_id :: int
  p_name :: string

record ProtocolPurpose =
  pp_id :: int
  pp_protocol_id :: int
  pp_sgroup :: string
  pp_purpose :: string

text \<open>
  The populated store: one list of rows per table, in storage order, and the two
  relationships the queries traverse, \<^verbatim>\<open>Client.subworld\<close> and
  \<^verbatim>\<open>File.protocol_purposes\<close>, as association tables of key pairs
  (subworld id, client id) and (protocol-purpose id, file id).
\<close>

record catalogue =
  client_table :: "Client list"
  subworld_table :: "Subworld list"
  file_table :: "File list"
  protocol_table :: "Protocol list"
  protocolPurpose_table :: "ProtocolPurpose list"
  subworld_client_association :: "(int \<times> int) list"
  protocolPurpose_file_association :: "(int \<times> int) list"

text \<open>
  Modelled from the spec: the class constants \<^verbatim>\<open>ProtocolPurpose.group_choices\<close>,
  \<^verbatim>\<open>Client.gender_choices\<close> and \<^verbatim>\<open>ProtocolPurpose.purpose_choices\<close> of
  \<^verbatim>\<open>models.py\<close>: the three groups, the two genders and the three purposes of
  sections 3 and 6 of the specification.
\<close>

definition group_choices :: "pyval list" where
  "group_choices = [PStr ''world'', PStr ''dev'', PStr ''eval'']"

definition gender_choices :: "pyval list" where
  "gender_choices = [PStr ''m'', PStr ''f'']"

definition purpose_choices :: "pyval list" where
  "purpose_choices = [PStr ''train'', PStr ''enrol'', PStr ''probe'']"

text \<open>
  Modelled from the spec: \<^verbatim>\<open>File.make_path\<close> of \<^verbatim>\<open>models.py\<close>; section 6 of the
  specification makes it the concatenation of prefix, path stem and suffix.
\<close>

definition make_path :: "File \<Rightarrow> string \<Rightarrow> string \<Rightarrow> string" where
  "make_path k prefix suffix = prefix @ f_path k @ suffix"

section \<open>Running a query\<close>

text \<open>
  The object-relational layer returns every entity once when a query over one
  mapped class is iterated: rows that stand for the same object are dropped after
  their first occurrence. \<open>unique_from seen\<close> is that pass over the rows.
\<close>

fun unique_from :: "'a list \<Rightarrow> 'a list \<Rightarrow> 'a list" where
  "unique_from seen [] = []"
| "unique_from seen (x # xs) =
     (if x \<in> set seen then unique_from seen xs else x # unique_from (x # seen) xs)"

definition unique_list :: "'a list \<Rightarrow> 'a list" where
  "unique_list xs = unique_from [] xs"

text \<open>\<^verbatim>\<open>Query.one()\<close>: exactly one result, else an exception.\<close>

fun one :: "'a list \<Rightarrow> error + 'a" where
  "one [] = Inl NoResultFound"
| "one [x] = Inr x"
| "one (x # y # zs) = Inl MultipleResultsFound"

text \<open>The relationship \<^verbatim>\<open>Client.subworld\<close>: the subworlds a client is attached to.\<close>

definition client_subworld :: "catalogue \<Rightarrow> Client \<Rightarrow> Subworld list" where
  "client_subworld cat c =
     [sw. sw \<leftarrow> subworld_table cat, (sw_id sw, c_id c) \<in> set (subworld_client_association cat)]"

text \<open>
  \<^verbatim>\<open>query(File).join(Client).join(ProtocolPurpose, File.protocol_purposes).join(Protocol)\<close>:
  one row per file, its client, each protocol purpose it is attached to and the
  protocol of that purpose.
\<close>

definition file_rows :: "catalogue \<Rightarrow> (File \<times> Client \<times> ProtocolPurpose \<times> Protocol) list" where
  "file_rows cat =
     [(f, c, pp, p).
        f \<leftarrow> file_table cat,
        c \<leftarrow> client_table cat, c_id c = f_client_id f,
        pp \<leftarrow> protocolPurpose_table cat,
        (pp_id pp, f_id f) \<in> set (protocolPurpose_file_association cat),
        p \<leftarrow> protocol_table cat, p_id p = pp_protocol_id pp]"

text \<open>
  \<^verbatim>\<open>q.join(Subworld, Client.subworld).filter(Subworld.name.in_(subworld))\<close> on such rows:
  a row stays once for every subworld of its client whose name is selected.
\<close>

definition join_subworld ::
  "catalogue \<Rightarrow> pyval list \<Rightarrow> (File \<times> Client \<times> ProtocolPurpose \<times> Protocol) list
     \<Rightarrow> (File \<times> Client \<times> ProtocolPurpose \<times> Protocol) list" where
  "join_subworld cat subworld rows =
     [(f, c, pp, p).
        (f, c, pp, p) \<leftarrow> rows,
        sw \<leftarrow> client_subworld cat c, PStr (sw_name sw) \<in> set subworld]"

text \<open>
  \<^verbatim>\<open>q.order_by(File.client_id, File.camera, File.distance, File.id)\<close> followed by
  \<^verbatim>\<open>list(q)\<close>.
\<close>

definition file_order :: "File \<Rightarrow> int \<times> string \<times> string \<times> int" where
  "file_order f = (f_client_id f, f_camera f, f_distance f, f_id f)"

definition list_files :: "(File \<times> Client \<times> ProtocolPurpose \<times> Protocol) list \<Rightarrow> File list" where
  "list_files rows = unique_list (map fst (sort_key (\<lambda>r. file_order (fst r)) rows))"

text \<open>\<^verbatim>\<open>q.order_by(Client.id)\<close> followed by \<^verbatim>\<open>list(q)\<close>.\<close>

definition list_clients :: "Client list \<Rightarrow> Client list" where
  "list_clients rows = unique_list (sort_key c_id rows)"

text \<open>
  \<^verbatim>\<open>list(set(retval))\<close>: the distinct elements of \<open>retval\<close>. Python enumerates a set
  in an order of its own; the order chosen here is one of them and no theorem below
  depends on it.
\<close>

definition list_set :: "'a list \<Rightarrow> 'a list" where
  "list_set retval = remdups retval"

section \<open>The database object\<close>

text \<open>
  \<^verbatim>\<open>self.session\<close> is \<^verbatim>\<open>None\<close> or an open session on the store. \<open>connect\<close> takes what
  is found at \<^verbatim>\<open>SQLITE_FILE\<close>: nothing, or the populated store.
\<close>

record Database =
  session :: "catalogue option"

definition connect :: "catalogue option \<Rightarrow> Database" where
  "connect store = (case store of None \<Rightarrow> \<lparr>session = None\<rparr> | Some cat \<Rightarrow> \<lparr>session = Some cat\<rparr>)"

definition is_valid :: "Database \<Rightarrow> bool" where
  "is_valid self = (session self \<noteq> None)"

definition assert_validity :: "Database \<Rightarrow> error + unit" where
  "assert_validity self = (if \<not> is_valid self then Inl UninitializedStore else Inr ())"

text \<open>
  \<^verbatim>\<open>self.session.query(...)\<close>: the attribute access fails on \<^verbatim>\<open>None\<close>, so a query
  attempted without a session raises \<open>AttributeError\<close>.
\<close>

definition session_query :: "Database \<Rightarrow> error + catalogue" where
  "session_query self = (case session self of None \<Rightarrow> Inl AttributeError | Some cat \<Rightarrow> Inr cat)"

text \<open>
  The methods \<^verbatim>\<open>groups\<close>, \<^verbatim>\<open>genders\<close> and \<^verbatim>\<open>purposes\<close>, and further down
  \<^verbatim>\<open>protocol\<close> and \<^verbatim>\<open>client\<close>, carry the class name here, since \<open>groups\<close>,
  \<open>purposes\<close> and \<open>protocol\<close> are also parameter names of the query methods.
\<close>

definition Database_groups :: "Database \<Rightarrow> pyval list" where
  "Database_groups self = group_choices"

definition Database_genders :: "Database \<Rightarrow> pyval list" where
  "Database_genders self = gender_choices"

definition Database_purposes :: "Database \<Rightarrow> pyval list" where
  "Database_purposes self = purpose_choices"

definition subworlds :: "Database \<Rightarrow> error + Subworld list" where
  "subworlds self =
     ebind (assert_validity self) (\<lambda>_.
     ebind (session_query self) (\<lambda>cat.
     Inr (unique_list (subworld_table cat))))"

definition subworld_names :: "Database \<Rightarrow> error + pyval list" where
  "subworld_names self =
     ebind (assert_validity self) (\<lambda>_.
     ebind (subworlds self) (\<lambda>l.
     Inr (map (\<lambda>k. PStr (sw_name k)) l)))"

definition has_subworld :: "Database \<Rightarrow> string \<Rightarrow> error + bool" where
  "has_subworld self name =
     ebind (assert_validity self) (\<lambda>_.
     ebind (session_query self) (\<lambda>cat.
     Inr (length (filter (\<lambda>sw. sw_name sw = name) (subworld_table cat)) \<noteq> 0)))"

definition protocols :: "Database \<Rightarrow> error + Protocol list" where
  "protocols self =
     ebind (assert_validity self) (\<lambda>_.
     ebind (session_query self) (\<lambda>cat.
     Inr (unique_list (protocol_table cat))))"

definition protocol_names :: "Database \<Rightarrow> error + pyval list" where
  "protocol_names self =
     ebind (assert_validity self) (\<lambda>_.
     ebind (protocols self) (\<lambda>l.
     Inr (map (\<lambda>k. PStr (p_name k)) l)))"

definition has_protocol :: "Database \<Rightarrow> string \<Rightarrow> error + bool" where
  "has_protocol self name =
     ebind (assert_validity self) (\<lambda>_.
     ebind (session_query self) (\<lambda>cat.
     Inr (length (filter (\<lambda>p. p_name p = name) (protocol_table cat)) \<noteq> 0)))"

definition Database_protocol :: "Database \<Rightarrow> string \<Rightarrow> error + Protocol" where
  "Database_protocol self name =
     ebind (assert_validity self) (\<lambda>_.
     ebind (session_query self) (\<lambda>cat.
     one (unique_list (filter (\<lambda>p. p_name p = name) (protocol_table cat)))))"

definition protocol_purposes :: "Database \<Rightarrow> error + ProtocolPurpose list" where
  "protocol_purposes self =
     ebind (assert_validity self) (\<lambda>_.
     ebind (session_query self) (\<lambda>cat.
     Inr (unique_list (protocolPurpose_table cat))))"

definition has_client_id :: "Database \<Rightarrow> int \<Rightarrow> error + bool" where
  "has_client_id self ident =
     ebind (assert_validity self) (\<lambda>_.
     ebind (session_query self) (\<lambda>cat.
     Inr (length (filter (\<lambda>c. c_id c = ident) (client_table cat)) \<noteq> 0)))"

definition Database_client :: "Database \<Rightarrow> int \<Rightarrow> error + Client" where
  "Database_client self ident =
     ebind (assert_validity self) (\<lambda>_.
     ebind (session_query self) (\<lambda>cat.
     one (unique_list (filter (\<lambda>c. c_id c = ident) (client_table cat)))))"

section \<open>Selecting clients\<close>

text \<open>
  The two branches of \<^verbatim>\<open>clients\<close> (lines 130 to 139 and 140 to 147). The arguments
  are the validated selections; \<^verbatim>\<open>if subworld:\<close> on a sequence asks whether it is
  non-empty. A row of the join with \<^verbatim>\<open>Subworld\<close> is kept as its client, which is all
  the later filters and the result read.
\<close>

definition clients_world ::
  "catalogue \<Rightarrow> pyval list \<Rightarrow> pyval list \<Rightarrow> pyval list \<Rightarrow> Client list" where
  "clients_world cat subworld gender birthyear =
     (let q = filter (\<lambda>c. c_sgroup c = ''world'') (client_table cat);
          q = (if subworld \<noteq> []
               then [c. c \<leftarrow> q, sw \<leftarrow> client_subworld cat c, PStr (sw_name sw) \<in> set subworld]
               else q);
          q = (if gender \<noteq> [] then filter (\<lambda>c. PStr (c_gender c) \<in> set gender) q else q);
          q = (if birthyear \<noteq> [] then filter (\<lambda>c. PInt (c_birthyear c) \<in> set birthyear) q else q)
      in list_clients q)"

definition clients_dev_eval ::
  "catalogue \<Rightarrow> pyval list \<Rightarrow> pyval list \<Rightarrow> pyval list \<Rightarrow> Client list" where
  "clients_dev_eval cat groups gender birthyear =
     (let q = filter (\<lambda>c. c_sgroup c \<noteq> ''world'' \<and> PStr (c_sgroup c) \<in> set groups)
                (client_table cat);
          q = (if gender \<noteq> [] then filter (\<lambda>c. PStr (c_gender c) \<in> set gender) q else q);
          q = (if birthyear \<noteq> [] then filter (\<lambda>c. PInt (c_birthyear c) \<in> set birthyear) q else q)
      in list_clients q)"

text \<open>\<^verbatim>\<open>range(1900,2050)\<close>.\<close>

definition VALID_BIRTHYEARS :: "pyval list" where
  "VALID_BIRTHYEARS = map PInt [1900..2049]"

definition clients ::
  "Database \<Rightarrow> pyval \<Rightarrow> pyval \<Rightarrow> pyval \<Rightarrow> pyval \<Rightarrow> pyval \<Rightarrow> error + Client list" where
  "clients self protocol groups subworld gender birthyear =
     ebind (assert_validity self) (\<lambda>_.
     ebind (protocol_names self) (\<lambda>VALID_PROTOCOLS.
     let VALID_GROUPS = Database_groups self in
     ebind (subworld_names self) (\<lambda>VALID_SUBWORLDS.
     let VALID_GENDERS = Database_genders self in
     ebind (check_validity protocol ''protocol'' VALID_PROTOCOLS VALID_PROTOCOLS) (\<lambda>protocol.
     ebind (check_validity groups ''group'' VALID_GROUPS VALID_GROUPS) (\<lambda>groups.
     ebind (check_validity subworld ''subworld'' VALID_SUBWORLDS []) (\<lambda>subworld.
     ebind (check_validity gender ''gender'' VALID_GENDERS []) (\<lambda>gender.
     ebind (check_validity birthyear ''birthyear'' VALID_BIRTHYEARS []) (\<lambda>birthyear.
     ebind (session_query self) (\<lambda>cat.
     let retval = [];
         retval = (if PStr ''world'' \<in> set groups
                   then retval @ clients_world cat subworld gender birthyear else retval);
         retval = (if PStr ''dev'' \<in> set groups \<or> PStr ''eval'' \<in> set groups
                   then retval @ clients_dev_eval cat groups gender birthyear else retval)
     in Inr retval)))))))))"

definition tclients :: "Database \<Rightarrow> pyval \<Rightarrow> pyval \<Rightarrow> error + Client list" where
  "tclients self protocol groups =
     clients self protocol (PStr ''world'') (PStr ''onethird'') PNone PNone"

definition zclients :: "Database \<Rightarrow> pyval \<Rightarrow> pyval \<Rightarrow> error + Client list" where
  "zclients self protocol groups =
     clients self protocol (PStr ''world'') (PStr ''onethird'') PNone PNone"

definition models :: "Database \<Rightarrow> pyval \<Rightarrow> pyval \<Rightarrow> error + Client list" where
  "models self protocol groups = clients self protocol groups PNone PNone PNone"

definition tmodels :: "Database \<Rightarrow> pyval \<Rightarrow> pyval \<Rightarrow> error + Client list" where
  "tmodels self protocol groups = tclients self protocol groups"

definition get_client_id_from_model_id :: "Database \<Rightarrow> int \<Rightarrow> int" where
  "get_client_id_from_model_id self model_id = model_id"

section \<open>Selecting files\<close>

text \<open>
  The \<^verbatim>\<open>model_ids\<close> argument is not validated. Model identifiers are client
  identifiers, hence integers: the argument is \<^verbatim>\<open>None\<close>, one integer or a sequence of
  integers. \<open>model_id_seq\<close> is the normalisation every file query starts with:
  \<^verbatim>\<open>
    if(model_ids is None):
      model_ids = ()
    elif(not isinstance(model_ids,collections.Iterable)):
      model_ids = (model_ids,)
  \<close>
\<close>

datatype model_ids_arg = IdsNone | IdsScalar int | IdsSeq "int list"

fun model_id_seq :: "model_ids_arg \<Rightarrow> int list" where
  "model_id_seq IdsNone = []"
| "model_id_seq (IdsScalar m) = [m]"
| "model_id_seq (IdsSeq ms) = ms"

text \<open>
  The four branches of \<^verbatim>\<open>objects\<close>: world (lines 301 to 309), enrol (312 to 318),
  probe for class client (321 to 327) and probe for class impostor (329 to 335).
\<close>

definition objects_world ::
  "catalogue \<Rightarrow> pyval list \<Rightarrow> pyval list \<Rightarrow> int list \<Rightarrow> File list" where
  "objects_world cat protocol subworld model_ids =
     (let q = file_rows cat;
          q = (if subworld \<noteq> [] then join_subworld cat subworld q else q);
          q = filter (\<lambda>(f, c, pp, p). PStr (p_name p) \<in> set protocol \<and> pp_sgroup pp = ''world'') q;
          q = (if model_ids \<noteq> [] then filter (\<lambda>(f, c, pp, p). c_id c \<in> set model_ids) q else q)
      in list_files q)"

definition objects_enrol ::
  "catalogue \<Rightarrow> pyval list \<Rightarrow> pyval list \<Rightarrow> int list \<Rightarrow> File list" where
  "objects_enrol cat protocol groups model_ids =
     (let q = filter (\<lambda>(f, c, pp, p). PStr (p_name p) \<in> set protocol
                        \<and> PStr (pp_sgroup pp) \<in> set groups \<and> pp_purpose pp = ''enrol'')
                (file_rows cat);
          q = (if model_ids \<noteq> [] then filter (\<lambda>(f, c, pp, p). c_id c \<in> set model_ids) q else q)
      in list_files q)"

definition objects_probe_client ::
  "catalogue \<Rightarrow> pyval list \<Rightarrow> pyval list \<Rightarrow> int list \<Rightarrow> File list" where
  "objects_probe_client cat protocol groups model_ids =
     (let q = filter (\<lambda>(f, c, pp, p). PStr (p_name p) \<in> set protocol
                        \<and> PStr (pp_sgroup pp) \<in> set groups \<and> pp_purpose pp = ''probe'')
                (file_rows cat);
          q = (if model_ids \<noteq> [] then filter (\<lambda>(f, c, pp, p). c_id c \<in> set model_ids) q else q)
      in list_files q)"

definition objects_probe_impostor ::
  "catalogue \<Rightarrow> pyval list \<Rightarrow> pyval list \<Rightarrow> int list \<Rightarrow> File list" where
  "objects_probe_impostor cat protocol groups model_ids =
     (let q = filter (\<lambda>(f, c, pp, p). PStr (p_name p) \<in> set protocol
                        \<and> PStr (pp_sgroup pp) \<in> set groups \<and> pp_purpose pp = ''probe'')
                (file_rows cat);
          q = (if length model_ids = 1
               then filter (\<lambda>(f, c, pp, p). \<not> f_client_id f \<in> set model_ids) q else q)
      in list_files q)"

text \<open>The part of \<^verbatim>\<open>objects\<close> after \<^verbatim>\<open># Now query the database\<close> (lines 300 to 337).\<close>

definition objects_retval ::
  "catalogue \<Rightarrow> pyval list \<Rightarrow> pyval list \<Rightarrow> int list \<Rightarrow> pyval list \<Rightarrow> pyval list
     \<Rightarrow> pyval list \<Rightarrow> File list" where
  "objects_retval cat protocol purposes model_ids groups classes subworld =
     (let retval = [];
          retval = (if PStr ''world'' \<in> set groups
                    then retval @ objects_world cat protocol subworld model_ids else retval);
          retval =
            (if PStr ''dev'' \<in> set groups \<or> PStr ''eval'' \<in> set groups then
               (let retval = (if PStr ''enrol'' \<in> set purposes
                              then retval @ objects_enrol cat protocol groups model_ids
                              else retval);
                    retval =
                      (if PStr ''probe'' \<in> set purposes then
                         (let retval = (if PStr ''client'' \<in> set classes
                                        then retval @ objects_probe_client cat protocol groups model_ids
                                        else retval);
                              retval = (if PStr ''impostor'' \<in> set classes
                                        then retval @ objects_probe_impostor cat protocol groups model_ids
                                        else retval)
                          in retval)
                       else retval)
                in retval)
             else retval)
      in list_set retval)"

definition objects ::
  "Database \<Rightarrow> pyval \<Rightarrow> pyval \<Rightarrow> model_ids_arg \<Rightarrow> pyval \<Rightarrow> pyval \<Rightarrow> pyval
     \<Rightarrow> error + File list" where
  "objects self protocol purposes model_ids groups classes subworld =
     ebind (assert_validity self) (\<lambda>_.
     ebind (protocol_names self) (\<lambda>VALID_PROTOCOLS.
     let VALID_PURPOSES = Database_purposes self;
         VALID_GROUPS = Database_groups self;
         VALID_CLASSES = [PStr ''client'', PStr ''impostor''] in
     ebind (subworld_names self) (\<lambda>VALID_SUBWORLDS.
     ebind (check_validity protocol ''protocol'' VALID_PROTOCOLS VALID_PROTOCOLS) (\<lambda>protocol.
     ebind (check_validity purposes ''purpose'' VALID_PURPOSES VALID_PURPOSES) (\<lambda>purposes.
     ebind (check_validity groups ''group'' VALID_GROUPS VALID_GROUPS) (\<lambda>groups.
     ebind (check_validity classes ''class'' VALID_CLASSES VALID_CLASSES) (\<lambda>classes.
     ebind (check_validity subworld ''subworld'' VALID_SUBWORLDS []) (\<lambda>subworld.
     let model_ids = model_id_seq model_ids in
     ebind (session_query self) (\<lambda>cat.
     Inr (objects_retval cat protocol purposes model_ids groups classes subworld))))))))))"

text \<open>
  \<^verbatim>\<open>tobjects\<close> and \<^verbatim>\<open>zobjects\<close> do not call \<^verbatim>\<open>assert_validity\<close> themselves; their
  first statement is the call of \<^verbatim>\<open>protocol_names\<close>. The join \<^verbatim>\<open>q.join(Subworld)\<close>
  names no relationship; the only path from the joined entities to \<^verbatim>\<open>Subworld\<close> is
  \<^verbatim>\<open>Client.subworld\<close>, which is what \<open>join_subworld\<close> follows. The two methods
  build the same query up to the cameras in \<^verbatim>\<open>validcam\<close>; \<open>cohort_objects\<close> is that
  query.
\<close>

definition cohort_objects ::
  "catalogue \<Rightarrow> pyval list \<Rightarrow> string list \<Rightarrow> int list \<Rightarrow> File list" where
  "cohort_objects cat protocol validcam model_ids =
     (let subworld = [PStr ''onethird''];
          q = file_rows cat;
          q = join_subworld cat subworld q;
          q = filter (\<lambda>(f, c, pp, p). PStr (p_name p) \<in> set protocol \<and> pp_sgroup pp = ''world''
                        \<and> f_camera f \<in> set validcam) q;
          q = (if model_ids \<noteq> [] then filter (\<lambda>(f, c, pp, p). c_id c \<in> set model_ids) q else q)
      in list_files q)"

definition tobjects :: "Database \<Rightarrow> pyval \<Rightarrow> model_ids_arg \<Rightarrow> pyval \<Rightarrow> error + File list" where
  "tobjects self protocol model_ids groups =
     ebind (protocol_names self) (\<lambda>VALID_PROTOCOLS.
     let VALID_GROUPS = Database_groups self;
         validcam = [''frontal''] in
     ebind (check_validity protocol ''protocol'' VALID_PROTOCOLS VALID_PROTOCOLS) (\<lambda>protocol.
     ebind (check_validity groups ''group'' VALID_GROUPS VALID_GROUPS) (\<lambda>groups.
     let model_ids = model_id_seq model_ids in
     ebind (session_query self) (\<lambda>cat.
     Inr ([] @ cohort_objects cat protocol validcam model_ids)))))"

definition zobjects :: "Database \<Rightarrow> pyval \<Rightarrow> model_ids_arg \<Rightarrow> pyval \<Rightarrow> error + File list" where
  "zobjects self protocol model_ids groups =
     ebind (protocol_names self) (\<lambda>VALID_PROTOCOLS.
     let VALID_GROUPS = Database_groups self;
         validcam = [''cam1'', ''cam2'', ''cam3'', ''cam4'', ''cam5''] in
     ebind (check_validity protocol ''protocol'' VALID_PROTOCOLS VALID_PROTOCOLS) (\<lambda>protocol.
     ebind (check_validity groups ''group'' VALID_GROUPS VALID_GROUPS) (\<lambda>groups.
     let model_ids = model_id_seq model_ids in
     ebind (session_query self) (\<lambda>cat.
     Inr ([] @ cohort_objects cat protocol validcam model_ids)))))"

section \<open>Paths\<close>

text \<open>
  \<^verbatim>\<open>
    fobj = self.session.query(File).filter(File.path.in_(paths))
    for p in paths:
      retval.extend([k.id for k in fobj if k.path == p])
    return retval
  \<close>
  No statement of \<^verbatim>\<open>reverse\<close> binds \<^verbatim>\<open>retval\<close>, and \<^verbatim>\<open>query.py\<close> binds no global
  of that name: the name is unbound when the loop starts. \<open>reverse_loop\<close> carries
  the binding of \<^verbatim>\<open>retval\<close>, \<open>None\<close> for unbound; reading the unbound name, in
  \<^verbatim>\<open>retval.extend\<close> (evaluated before its argument) or in \<^verbatim>\<open>return retval\<close>, raises
  \<open>NameError\<close>. (\<^verbatim>\<open>reverse\<close> stands before \<^verbatim>\<open>paths\<close> here because its parameter has
  that name.)
\<close>

fun reverse_loop :: "File list \<Rightarrow> int list option \<Rightarrow> string list \<Rightarrow> error + int list" where
  "reverse_loop fobj retval [] =
     (case retval of None \<Rightarrow> Inl (NameError ''retval'') | Some r \<Rightarrow> Inr r)"
| "reverse_loop fobj retval (p # ps) =
     (case retval of
        None \<Rightarrow> Inl (NameError ''retval'')
      | Some r \<Rightarrow> reverse_loop fobj (Some (r @ [f_id k. k \<leftarrow> fobj, f_path k = p])) ps)"

definition reverse :: "Database \<Rightarrow> string list \<Rightarrow> error + int list" where
  "reverse self paths =
     ebind (assert_validity self) (\<lambda>_.
     ebind (session_query self) (\<lambda>cat.
     let fobj = unique_list (filter (\<lambda>k. f_path k \<in> set paths) (file_table cat)) in
     reverse_loop fobj None paths))"

text \<open>
  \<^verbatim>\<open>
    fobj = self.session.query(File).filter(File.id.in_(ids))
    retval = []
    for p in ids:
      retval.extend([k.make_path(prefix, suffix) for k in fobj if k.id == p])
    return retval
  \<close>
  \<open>ids\<close> is a list of file identifiers; every pass of the loop iterates the query again.
\<close>

definition paths :: "Database \<Rightarrow> int list \<Rightarrow> string \<Rightarrow> string \<Rightarrow> error + string list" where
  "paths self ids prefix suffix =
     ebind (assert_validity self) (\<lambda>_.
     ebind (session_query self) (\<lambda>cat.
     let fobj = unique_list (filter (\<lambda>k. f_id k \<in> set ids) (file_table cat)) in
     Inr (concat (map (\<lambda>p. [make_path k prefix suffix. k \<leftarrow> fobj, f_id k = p]) ids))))"

section \<open>Invariants of the data model\<close>

text \<open>
  Section 3 of the specification has the subworlds \<^verbatim>\<open>onethird\<close> and \<^verbatim>\<open>twothirds\<close>
  partition the clients of the world group, and gives no subworld to the other
  clients: a world client is attached to exactly one subworld, of one of the two
  names, and a client of another group to none.
\<close>

definition subworld_assignment :: "catalogue \<Rightarrow> bool" where
  "subworld_assignment cat =
     (\<forall>c \<in> set (client_table cat).
        if c_sgroup c = ''world''
        then (case client_subworld cat c of
                [sw] \<Rightarrow> sw_name sw = ''onethird'' \<or> sw_name sw = ''twothirds''
              | _ \<Rightarrow> False)
        else client_subworld cat c = [])"

section \<open>A small catalogue\<close>

text \<open>
  Four clients (two of the world group, one in each subworld), four files, two
  protocols and five protocol purposes; the theorems below are exercised on it.
\<close>

definition example_catalogue :: catalogue where
  "example_catalogue =
     \<lparr>client_table =
        [\<lparr>c_id = 2, c_sgroup = ''dev'', c_gender = ''m'', c_birthyear = 1970\<rparr>,
         \<lparr>c_id = 1, c_sgroup = ''world'', c_gender = ''f'', c_birthyear = 1980\<rparr>,
         \<lparr>c_id = 3, c_sgroup = ''world'', c_gender = ''m'', c_birthyear = 1975\<rparr>,
         \<lparr>c_id = 4, c_sgroup = ''eval'', c_gender = ''f'', c_birthyear = 1980\<rparr>],
      subworld_table =
        [\<lparr>sw_id = 1, sw_name = ''onethird''\<rparr>, \<lparr>sw_id = 2, sw_name = ''twothirds''\<rparr>],
      file_table =
        [\<lparr>f_id = 10, f_client_id = 2, f_path = ''a'', f_camera = ''frontal'', f_distance = ''0''\<rparr>,
         \<lparr>f_id = 11, f_client_id = 2, f_path = ''b'', f_camera = ''cam1'', f_distance = ''1''\<rparr>,
         \<lparr>f_id = 12, f_client_id = 4, f_path = ''c'', f_camera = ''cam1'', f_distance = ''1''\<rparr>,
         \<lparr>f_id = 13, f_client_id = 1, f_path = ''d'', f_camera = ''cam1'', f_distance = ''1''\<rparr>],
      protocol_table = [\<lparr>p_id = 1, p_name = ''combined''\<rparr>, \<lparr>p_id = 2, p_name = ''close''\<rparr>],
      protocolPurpose_table =
        [\<lparr>pp_id = 1, pp_protocol_id = 1, pp_sgroup = ''world'', pp_purpose = ''train''\<rparr>,
         \<lparr>pp_id = 2, pp_protocol_id = 1, pp_sgroup = ''dev'', pp_purpose = ''enrol''\<rparr>,
         \<lparr>pp_id = 3, pp_protocol_id = 1, pp_sgroup = ''dev'', pp_purpose = ''probe''\<rparr>,
         \<lparr>pp_id = 4, pp_protocol_id = 2, pp_sgroup = ''dev'', pp_purpose = ''probe''\<rparr>,
         \<lparr>pp_id = 5, pp_protocol_id = 1, pp_sgroup = ''eval'', pp_purpose = ''probe''\<rparr>],
      subworld_client_association = [(1, 1), (2, 3)],
      protocolPurpose_file_association = [(1, 13), (2, 10), (3, 11), (4, 11), (5, 12)]\<rparr>"

definition example_database :: Database where
  "example_database = connect (Some example_catalogue)"

section \<open>Properties of the validator\<close>

lemma ebind_Inl [simp]: "ebind (Inl e) f = Inl e"
  by (simp add: ebind_def)

lemma ebind_Inr [simp]: "ebind (Inr x) f = f x"
  by (simp add: ebind_def)

lemma check_validity_falsy:
  "\<not> truthy l \<Longrightarrow> check_validity l obj valid dflt = Inr dflt"
  by (subst check_validity.simps) simp

lemma check_validity_seq:
  "ks \<noteq> [] \<Longrightarrow>
   check_validity (PSeq ks) obj valid dflt = ebind (check_elements ks obj valid) (\<lambda>_. Inr ks)"
  by (subst check_validity.simps) simp

lemma check_validity_scalar:
  "truthy l \<Longrightarrow> \<not> is_tuple_or_list l \<Longrightarrow>
   check_validity l obj valid dflt = check_validity (PSeq [l]) obj valid dflt"
  by (subst check_validity.simps) (cases l; simp)

lemma check_elements_ok:
  "(check_elements ks obj valid = Inr ()) = (set ks \<subseteq> set valid)"
  by (induction ks) auto

lemma check_elements_fail:
  "\<not> set ks \<subseteq> set valid \<Longrightarrow>
   \<exists>k \<in> set ks. k \<notin> set valid \<and> check_elements ks obj valid = Inl (InvalidSelector obj k valid)"
  by (induction ks) auto

lemma check_elements_first:
  "\<not> set ks \<subseteq> set valid \<Longrightarrow>
   \<exists>pre k post. ks = pre @ k # post \<and> set pre \<subseteq> set valid \<and> k \<notin> set valid
      \<and> check_elements ks obj valid = Inl (InvalidSelector obj k valid)"
proof (induction ks)
  case Nil
  then show ?case by simp
next
  case (Cons a ks)
  show ?case
  proof (cases "a \<in> set valid")
    case False
    then have "a # ks = [] @ a # ks \<and> set [] \<subseteq> set valid \<and> a \<notin> set valid
        \<and> check_elements (a # ks) obj valid = Inl (InvalidSelector obj a valid)"
      by simp
    then show ?thesis by blast
  next
    case True
    with Cons.prems have "\<not> set ks \<subseteq> set valid" by simp
    from Cons.IH [OF this] obtain pre k post where
      h: "ks = pre @ k # post" "set pre \<subseteq> set valid" "k \<notin> set valid"
         "check_elements ks obj valid = Inl (InvalidSelector obj k valid)"
      by blast
    from h True have "a # ks = (a # pre) @ k # post \<and> set (a # pre) \<subseteq> set valid \<and> k \<notin> set valid
        \<and> check_elements (a # ks) obj valid = Inl (InvalidSelector obj k valid)"
      by simp
    then show ?thesis by blast
  qed
qed

subsection \<open>C4: the contract of the validator\<close>

text \<open>
  Claim C4, as amended. An input that Python takes for false (\<^verbatim>\<open>None\<close>, an empty
  sequence, the empty string, the integer 0) yields the supplied default. Any other
  scalar is validated as the one-element sequence holding it. A non-empty sequence
  whose elements are all valid is returned as it is. A sequence with an element
  outside the valid set raises the Invalid Selector error that carries the argument
  name, the first such element and the valid set. The validator is a function of its
  arguments and has no effect besides its result.
\<close>

theorem check_validity_contract:
  "(\<not> truthy l \<longrightarrow> check_validity l obj valid dflt = Inr dflt) \<and>
   (truthy l \<and> \<not> is_tuple_or_list l \<longrightarrow>
      check_validity l obj valid dflt = check_validity (PSeq [l]) obj valid dflt) \<and>
   (ks \<noteq> [] \<and> set ks \<subseteq> set valid \<longrightarrow> check_validity (PSeq ks) obj valid dflt = Inr ks) \<and>
   (\<not> set ks \<subseteq> set valid \<longrightarrow>
      (\<exists>pre k post. ks = pre @ k # post \<and> set pre \<subseteq> set valid \<and> k \<notin> set valid
         \<and> check_validity (PSeq ks) obj valid dflt = Inl (InvalidSelector obj k valid)))"
proof (intro conjI impI)
  assume "\<not> truthy l"
  then show "check_validity l obj valid dflt = Inr dflt" by (rule check_validity_falsy)
next
  assume "truthy l \<and> \<not> is_tuple_or_list l"
  then show "check_validity l obj valid dflt = check_validity (PSeq [l]) obj valid dflt"
    by (simp add: check_validity_scalar)
next
  assume h: "ks \<noteq> [] \<and> set ks \<subseteq> set valid"
  then have "check_elements ks obj valid = Inr ()" by (simp add: check_elements_ok)
  with h show "check_validity (PSeq ks) obj valid dflt = Inr ks"
    by (simp add: check_validity_seq)
next
  assume h: "\<not> set ks \<subseteq> set valid"
  then have ne: "ks \<noteq> []" by auto
  from check_elements_first [OF h, of obj] obtain pre k post where
    k: "ks = pre @ k # post" "set pre \<subseteq> set valid" "k \<notin> set valid"
       "check_elements ks obj valid = Inl (InvalidSelector obj k valid)"
    by blast
  from ne k(4) have "check_validity (PSeq ks) obj valid dflt = Inl (InvalidSelector obj k valid)"
    by (simp add: check_validity_seq)
  with k show "\<exists>pre k post. ks = pre @ k # post \<and> set pre \<subseteq> set valid \<and> k \<notin> set valid
         \<and> check_validity (PSeq ks) obj valid dflt = Inl (InvalidSelector obj k valid)"
    by blast
qed

text \<open>The contract at the group selector: absent, scalar, valid and invalid sequences.\<close>

theorem check_validity_contract_witness:
  "check_validity PNone ''group'' group_choices group_choices = Inr group_choices \<and>
   check_validity (PStr ''dev'') ''group'' group_choices group_choices
     = check_validity (PSeq [PStr ''dev'']) ''group'' group_choices group_choices \<and>
   check_validity (PSeq [PStr ''dev'', PStr ''eval'']) ''group'' group_choices group_choices
     = Inr [PStr ''dev'', PStr ''eval''] \<and>
   (\<exists>pre k post. [PStr ''dev'', PStr ''test''] = pre @ k # post \<and> set pre \<subseteq> set group_choices
      \<and> k \<notin> set group_choices
      \<and> check_validity (PSeq [PStr ''dev'', PStr ''test'']) ''group'' group_choices group_choices
          = Inl (InvalidSelector ''group'' k group_choices))"
  using check_validity_contract [of PNone "''group''" group_choices group_choices
          "[PStr ''dev'', PStr ''eval'']"]
        check_validity_contract [of "PStr ''dev''" "''group''" group_choices group_choices
          "[PStr ''dev'', PStr ''test'']"]
  by (simp add: group_choices_def)

text \<open>
  Claim C4 as stated fails on the scalar 0: it is not validated as the sequence
  \<^verbatim>\<open>(0,)\<close>, which raises for the birth-year selector, but replaced by the default.
\<close>

theorem check_validity_scalar_zero_counterexample:
  "check_validity (PInt 0) ''birthyear'' VALID_BIRTHYEARS [] = Inr [] \<and>
   PInt 0 \<notin> set VALID_BIRTHYEARS \<and>
   check_validity (PSeq [PInt 0]) ''birthyear'' VALID_BIRTHYEARS []
     = Inl (InvalidSelector ''birthyear'' (PInt 0) VALID_BIRTHYEARS)"
  by (auto simp add: check_validity_falsy check_validity_seq VALID_BIRTHYEARS_def)

section \<open>Basic facts\<close>

lemma assert_validity_None [simp]: "session self = None \<Longrightarrow> assert_validity self = Inl UninitializedStore"
  by (simp add: assert_validity_def is_valid_def)

lemma assert_validity_Some [simp]: "session self = Some cat \<Longrightarrow> assert_validity self = Inr ()"
  by (simp add: assert_validity_def is_valid_def)

lemma session_query_Some [simp]: "session self = Some cat \<Longrightarrow> session_query self = Inr cat"
  by (simp add: session_query_def)

lemma protocol_names_None: "session self = None \<Longrightarrow> protocol_names self = Inl UninitializedStore"
  by (simp add: protocol_names_def)

lemma protocol_names_Some:
  "session self = Some cat \<Longrightarrow>
   protocol_names self = Inr (map (\<lambda>k. PStr (p_name k)) (unique_list (protocol_table cat)))"
  by (simp add: protocol_names_def protocols_def)

lemma subworld_names_Some:
  "session self = Some cat \<Longrightarrow>
   subworld_names self = Inr (map (\<lambda>k. PStr (sw_name k)) (unique_list (subworld_table cat)))"
  by (simp add: subworld_names_def subworlds_def)

lemma check_validity_error:
  "check_validity l obj valid dflt = Inl e \<Longrightarrow> \<exists>k. e = InvalidSelector obj k valid"
proof (cases "truthy l")
  case False
  assume "check_validity l obj valid dflt = Inl e"
  with False show ?thesis by (simp add: check_validity_falsy)
next
  case True
  assume e: "check_validity l obj valid dflt = Inl e"
  have seq: "\<exists>k. e = InvalidSelector obj k valid"
    if "ks \<noteq> []" and "check_validity (PSeq ks) obj valid dflt = Inl e" for ks
  proof (cases "set ks \<subseteq> set valid")
    case True
    then have "check_elements ks obj valid = Inr ()" by (simp add: check_elements_ok)
    with that show ?thesis by (simp add: check_validity_seq)
  next
    case False
    from check_elements_fail [OF this, of obj] that show ?thesis
      by (auto simp add: check_validity_seq)
  qed
  show ?thesis
  proof (cases "is_tuple_or_list l")
    case True
    then obtain ks where l: "l = PSeq ks" by (cases l) auto
    with \<open>truthy l\<close> have "ks \<noteq> []" by simp
    from seq [OF this] e l show ?thesis by simp
  next
    case False
    with \<open>truthy l\<close> e have "check_validity (PSeq [l]) obj valid dflt = Inl e"
      by (simp add: check_validity_scalar)
    with seq [of "[l]"] show ?thesis by simp
  qed
qed

lemma check_validity_world:
  "check_validity (PStr ''world'') ''group'' group_choices group_choices = Inr [PStr ''world'']"
  by (simp add: check_validity_scalar check_validity_seq group_choices_def)

lemma clients_world_group_error:
  "clients self protocol (PStr ''world'') subworld gender birthyear \<noteq> Inl (InvalidSelector ''group'' k v)"
proof (cases "session self")
  case None
  then show ?thesis by (simp add: clients_def)
next
  case (Some cat)
  show ?thesis
  proof
    assume a: "clients self protocol (PStr ''world'') subworld gender birthyear
                 = Inl (InvalidSelector ''group'' k v)"
    let ?P = "map (\<lambda>k. PStr (p_name k)) (unique_list (protocol_table cat))"
    let ?S = "map (\<lambda>k. PStr (sw_name k)) (unique_list (subworld_table cat))"
    from a Some have b:
      "ebind (check_validity protocol ''protocol'' ?P ?P) (\<lambda>protocol.
       ebind (check_validity subworld ''subworld'' ?S []) (\<lambda>subworld.
       ebind (check_validity gender ''gender'' gender_choices []) (\<lambda>gender.
       ebind (check_validity birthyear ''birthyear'' VALID_BIRTHYEARS []) (\<lambda>birthyear.
         Inr (clients_world cat subworld gender birthyear)))))
       = Inl (InvalidSelector ''group'' k v)"
      by (simp add: clients_def protocol_names_Some subworld_names_Some Database_groups_def
            Database_genders_def check_validity_world)
    then show False
      by (auto simp add: ebind_def split: sum.splits dest!: check_validity_error)
  qed
qed

lemma set_unique_from: "set (unique_from seen xs) = set xs - set seen"
  by (induction xs arbitrary: seen) auto

lemma distinct_unique_from: "distinct (unique_from seen xs)"
  by (induction xs arbitrary: seen) (auto simp add: set_unique_from)

lemma unique_from_distinct:
  "distinct xs \<Longrightarrow> set xs \<inter> set seen = {} \<Longrightarrow> unique_from seen xs = xs"
  by (induction xs arbitrary: seen) auto

lemma sorted_unique_from:
  "sorted (map k xs) \<Longrightarrow> sorted (map k (unique_from seen xs))"
  by (induction xs arbitrary: seen) (auto simp add: set_unique_from)

lemma set_unique_list [simp]: "set (unique_list xs) = set xs"
  by (simp add: unique_list_def set_unique_from)

lemma distinct_unique_list [simp]: "distinct (unique_list xs)"
  by (simp add: unique_list_def distinct_unique_from)

lemma unique_list_distinct: "distinct xs \<Longrightarrow> unique_list xs = xs"
  by (simp add: unique_list_def unique_from_distinct)

lemma sorted_unique_list: "sorted (map k xs) \<Longrightarrow> sorted (map k (unique_list xs))"
  by (simp add: unique_list_def sorted_unique_from)

lemma distinct_map_imp: "distinct (map k xs) \<Longrightarrow> distinct xs"
  by (simp add: distinct_map)

lemma comprehension_filter:
  "concat (map (\<lambda>k. if P k then [f k] else []) xs) = map f (filter P xs)"
  by (induction xs) auto

lemma filter_unique_key:
  "distinct (map k xs) \<Longrightarrow>
   filter (\<lambda>x. k x = i) xs = (case find (\<lambda>x. k x = i) xs of None \<Rightarrow> [] | Some x \<Rightarrow> [x])"
proof (induction xs)
  case Nil
  then show ?case by simp
next
  case (Cons a xs)
  show ?case
  proof (cases "k a = i")
    case True
    from Cons.prems have "k a \<notin> k ` set xs" by simp
    with True have "\<forall>x \<in> set xs. k x \<noteq> i" by blast
    then have "filter (\<lambda>x. k x = i) xs = []" by (simp add: filter_empty_conv)
    with True show ?thesis by simp
  next
    case False
    with Cons show ?thesis by simp
  qed
qed

lemma example_session [simp]: "session example_database = Some example_catalogue"
  by (simp add: example_database_def connect_def)

lemma example_tables [simp]:
  "client_table example_catalogue =
        [\<lparr>c_id = 2, c_sgroup = ''dev'', c_gender = ''m'', c_birthyear = 1970\<rparr>,
         \<lparr>c_id = 1, c_sgroup = ''world'', c_gender = ''f'', c_birthyear = 1980\<rparr>,
         \<lparr>c_id = 3, c_sgroup = ''world'', c_gender = ''m'', c_birthyear = 1975\<rparr>,
         \<lparr>c_id = 4, c_sgroup = ''eval'', c_gender = ''f'', c_birthyear = 1980\<rparr>]"
  "subworld_table example_catalogue =
        [\<lparr>sw_id = 1, sw_name = ''onethird''\<rparr>, \<lparr>sw_id = 2, sw_name = ''twothirds''\<rparr>]"
  "file_table example_catalogue =
        [\<lparr>f_id = 10, f_client_id = 2, f_path = ''a'', f_camera = ''frontal'', f_distance = ''0''\<rparr>,
         \<lparr>f_id = 11, f_client_id = 2, f_path = ''b'', f_camera = ''cam1'', f_distance = ''1''\<rparr>,
         \<lparr>f_id = 12, f_client_id = 4, f_path = ''c'', f_camera = ''cam1'', f_distance = ''1''\<rparr>,
         \<lparr>f_id = 13, f_client_id = 1, f_path = ''d'', f_camera = ''cam1'', f_distance = ''1''\<rparr>]"
  "protocol_table example_catalogue = [\<lparr>p_id = 1, p_name = ''combined''\<rparr>, \<lparr>p_id = 2, p_name = ''close''\<rparr>]"
  "protocolPurpose_table example_catalogue =
        [\<lparr>pp_id = 1, pp_protocol_id = 1, pp_sgroup = ''world'', pp_purpose = ''train''\<rparr>,
         \<lparr>pp_id = 2, pp_protocol_id = 1, pp_sgroup = ''dev'', pp_purpose = ''enrol''\<rparr>,
         \<lparr>pp_id = 3, pp_protocol_id = 1, pp_sgroup = ''dev'', pp_purpose = ''probe''\<rparr>,
         \<lparr>pp_id = 4, pp_protocol_id = 2, pp_sgroup = ''dev'', pp_purpose = ''probe''\<rparr>,
         \<lparr>pp_id = 5, pp_protocol_id = 1, pp_sgroup = ''eval'', pp_purpose = ''probe''\<rparr>]"
  "subworld_client_association example_catalogue = [(1, 1), (2, 3)]"
  "protocolPurpose_file_association example_catalogue = [(1, 13), (2, 10), (3, 11), (4, 11), (5, 12)]"
  by (simp_all add: example_catalogue_def)


section \<open>The database without a session\<close>

subsection \<open>C5: every operation fails first\<close>

text \<open>
  Claim C5. When no session was opened, every operation that reads the store raises
  the Uninitialized Store error. A query attempted on the missing session would
  raise \<open>AttributeError\<close> instead, so the check comes before any query and nothing
  of the store is read. \<open>tobjects\<close> and \<open>zobjects\<close> get the check from their first
  call, \<open>protocol_names\<close>.
\<close>

theorem uninitialized_store_fails_first:
  assumes "session self = None"
  shows "subworld_names self = Inl UninitializedStore
    \<and> subworlds self = Inl UninitializedStore
    \<and> has_subworld self name = Inl UninitializedStore
    \<and> clients self protocol groups subworld gender birthyear = Inl UninitializedStore
    \<and> tclients self protocol groups = Inl UninitializedStore
    \<and> zclients self protocol groups = Inl UninitializedStore
    \<and> models self protocol groups = Inl UninitializedStore
    \<and> has_client_id self ident = Inl UninitializedStore
    \<and> Database_client self ident = Inl UninitializedStore
    \<and> tmodels self protocol groups = Inl UninitializedStore
    \<and> objects self protocol purposes model_ids groups classes subworld = Inl UninitializedStore
    \<and> tobjects self protocol model_ids groups = Inl UninitializedStore
    \<and> zobjects self protocol model_ids groups = Inl UninitializedStore
    \<and> protocol_names self = Inl UninitializedStore
    \<and> protocols self = Inl UninitializedStore
    \<and> has_protocol self name = Inl UninitializedStore
    \<and> Database_protocol self name = Inl UninitializedStore
    \<and> protocol_purposes self = Inl UninitializedStore
    \<and> paths self ids prefix suffix = Inl UninitializedStore
    \<and> reverse self stems = Inl UninitializedStore"
  using assms
  by (simp add: subworld_names_def subworlds_def has_subworld_def clients_def tclients_def
        zclients_def models_def has_client_id_def Database_client_def tmodels_def objects_def
        tobjects_def zobjects_def protocol_names_def protocols_def has_protocol_def
        Database_protocol_def protocol_purposes_def paths_def reverse_def)

text \<open>The database connected to a missing store, on some arguments of every operation.\<close>

theorem uninitialized_store_witness:
  "session (connect None) = None
    \<and> subworld_names (connect None) = Inl UninitializedStore
    \<and> subworlds (connect None) = Inl UninitializedStore
    \<and> has_subworld (connect None) ''onethird'' = Inl UninitializedStore
    \<and> clients (connect None) PNone (PStr ''dev'') PNone PNone PNone = Inl UninitializedStore
    \<and> tclients (connect None) PNone (PStr ''dev'') = Inl UninitializedStore
    \<and> zclients (connect None) PNone (PStr ''dev'') = Inl UninitializedStore
    \<and> models (connect None) PNone (PStr ''dev'') = Inl UninitializedStore
    \<and> has_client_id (connect None) 1 = Inl UninitializedStore
    \<and> Database_client (connect None) 1 = Inl UninitializedStore
    \<and> tmodels (connect None) PNone (PStr ''dev'') = Inl UninitializedStore
    \<and> objects (connect None) PNone PNone (IdsScalar 1) (PStr ''dev'') PNone PNone
          = Inl UninitializedStore
    \<and> tobjects (connect None) PNone (IdsScalar 1) (PStr ''dev'') = Inl UninitializedStore
    \<and> zobjects (connect None) PNone (IdsScalar 1) (PStr ''dev'') = Inl UninitializedStore
    \<and> protocol_names (connect None) = Inl UninitializedStore
    \<and> protocols (connect None) = Inl UninitializedStore
    \<and> has_protocol (connect None) ''onethird'' = Inl UninitializedStore
    \<and> Database_protocol (connect None) ''onethird'' = Inl UninitializedStore
    \<and> protocol_purposes (connect None) = Inl UninitializedStore
    \<and> paths (connect None) [10] ''p/'' ''.x'' = Inl UninitializedStore
    \<and> reverse (connect None) [''a''] = Inl UninitializedStore"
proof -
  have h: "session (connect None) = None" by (simp add: connect_def)
  show ?thesis
    using h uninitialized_store_fails_first [OF h, of "''onethird''" PNone "PStr ''dev''" PNone
      PNone PNone 1 PNone "IdsScalar 1" PNone "[10]" "''p/''" "''.x''" "[''a'']"]
    by simp
qed

section \<open>Paths and the reverse lookup\<close>

subsection \<open>C9: paths follow the caller's identifiers\<close>

text \<open>
  Claim C9. On a store whose file identifiers are unique, \<open>paths\<close> goes through
  \<open>ids\<close> in the caller's order and yields, for every identifier that is the
  identifier of a stored file, the prefix followed by the path stem of that file and
  the suffix; an identifier that matches no file yields nothing, and a repeated
  identifier yields its path again.
\<close>

theorem paths_in_caller_order:
  assumes "session self = Some cat" and "distinct (map f_id (file_table cat))"
  shows "paths self ids prefix suffix =
     Inr (concat (map (\<lambda>i. case find (\<lambda>k. f_id k = i) (file_table cat) of
                               None \<Rightarrow> []
                             | Some k \<Rightarrow> [prefix @ f_path k @ suffix]) ids))"
proof -
  let ?files = "file_table cat"
  let ?fobj = "unique_list (filter (\<lambda>k. f_id k \<in> set ids) ?files)"
  from assms(2) have d: "distinct ?files" by (rule distinct_map_imp)
  then have fobj: "?fobj = filter (\<lambda>k. f_id k \<in> set ids) ?files"
    by (simp add: unique_list_distinct)
  have one: "[make_path k prefix suffix. k \<leftarrow> ?fobj, f_id k = p]
      = (case find (\<lambda>k. f_id k = p) ?files of None \<Rightarrow> [] | Some k \<Rightarrow> [prefix @ f_path k @ suffix])"
    if p: "p \<in> set ids" for p
  proof -
    have "[make_path k prefix suffix. k \<leftarrow> ?fobj, f_id k = p]
            = map (\<lambda>k. make_path k prefix suffix) (filter (\<lambda>k. f_id k = p) ?fobj)"
      by (rule comprehension_filter)
    also from p have "filter (\<lambda>k. f_id k = p) ?fobj = filter (\<lambda>k. f_id k = p) ?files"
      unfolding fobj by (simp add: conj_commute cong: conj_cong)
    also have "\<dots> = (case find (\<lambda>k. f_id k = p) ?files of None \<Rightarrow> [] | Some k \<Rightarrow> [k])"
      using assms(2) by (rule filter_unique_key)
    finally show ?thesis by (simp add: make_path_def split: option.splits)
  qed
  have m: "map (\<lambda>p. [make_path k prefix suffix. k \<leftarrow> ?fobj, f_id k = p]) ids
      = map (\<lambda>i. case find (\<lambda>k. f_id k = i) ?files of None \<Rightarrow> []
                   | Some k \<Rightarrow> [prefix @ f_path k @ suffix]) ids"
    by (rule map_cong [OF refl]) (rule one)
  from assms(1) have "paths self ids prefix suffix
      = Inr (concat (map (\<lambda>p. [make_path k prefix suffix. k \<leftarrow> ?fobj, f_id k = p]) ids))"
    by (simp add: paths_def Let_def)
  with m show ?thesis by (simp only:)
qed


text \<open>Four identifiers, one repeated and one unknown, on the small catalogue.\<close>

theorem paths_in_caller_order_witness:
  "paths example_database [11, 10, 99, 11] ''p/'' ''.x'' = Inr [''p/b.x'', ''p/a.x'', ''p/b.x'']"
  using paths_in_caller_order [of example_database example_catalogue "[11, 10, 99, 11]" "''p/''" "''.x''"]
  by simp

subsection \<open>C2: the reverse lookup\<close>

text \<open>
  Claim C2 asks that \<open>reverse\<close> maps the paths of a list of stored identifiers back
  to these identifiers. On the small catalogue the path of file 10 is built, and
  \<open>reverse\<close> raises \<open>NameError\<close> on it, with a prefix and a suffix and without.
\<close>

theorem reverse_of_paths_raises:
  "paths example_database [10] ''p/'' ''.x'' = Inr [''p/a.x''] \<and>
   reverse example_database [''p/a.x''] = Inl (NameError ''retval'') \<and>
   paths example_database [10] [] [] = Inr [''a''] \<and>
   reverse example_database [''a''] = Inl (NameError ''retval'')"
  by (simp add: paths_def reverse_def unique_list_def make_path_def)

section \<open>Selected files\<close>

lemma set_list_files [simp]: "set (list_files rows) = fst ` set rows"
  by (simp add: list_files_def)

lemma mem_file_rows:
  "((f, c, pp, p) \<in> set (file_rows cat)) =
   (f \<in> set (file_table cat) \<and> c \<in> set (client_table cat) \<and> c_id c = f_client_id f \<and>
    pp \<in> set (protocolPurpose_table cat) \<and>
    (pp_id pp, f_id f) \<in> set (protocolPurpose_file_association cat) \<and>
    p \<in> set (protocol_table cat) \<and> p_id p = pp_protocol_id pp)"
  by (auto simp add: file_rows_def)

lemma mem_join_subworld:
  "((f, c, pp, p) \<in> set (join_subworld cat subworld rows)) =
   ((f, c, pp, p) \<in> set rows \<and> (\<exists>sw \<in> set (client_subworld cat c). PStr (sw_name sw) \<in> set subworld))"
  by (force simp add: join_subworld_def)

lemma file_rows_fst: "r \<in> set (file_rows cat) \<Longrightarrow> fst r \<in> set (file_table cat)"
  by (cases r rule: prod_cases4) (simp add: mem_file_rows)

lemma join_subworld_subset: "set (join_subworld cat subworld rows) \<subseteq> set rows"
proof
  fix r assume "r \<in> set (join_subworld cat subworld rows)"
  then show "r \<in> set rows" by (cases r rule: prod_cases4) (simp add: mem_join_subworld)
qed

lemma list_files_in_table:
  "set rows \<subseteq> set (file_rows cat) \<Longrightarrow> set (list_files rows) \<subseteq> set (file_table cat)"
  using file_rows_fst by fastforce

lemma objects_world_in_table: "set (objects_world cat protocol subworld model_ids) \<subseteq> set (file_table cat)"
  unfolding objects_world_def Let_def
  by (rule list_files_in_table) (use join_subworld_subset [of cat subworld "file_rows cat"] in auto)

lemma objects_enrol_in_table: "set (objects_enrol cat protocol groups model_ids) \<subseteq> set (file_table cat)"
  unfolding objects_enrol_def Let_def
  by (rule list_files_in_table) auto

lemma objects_probe_client_in_table:
  "set (objects_probe_client cat protocol groups model_ids) \<subseteq> set (file_table cat)"
  unfolding objects_probe_client_def Let_def
  by (rule list_files_in_table) auto

lemma objects_probe_impostor_in_table:
  "set (objects_probe_impostor cat protocol groups model_ids) \<subseteq> set (file_table cat)"
  unfolding objects_probe_impostor_def Let_def
  by (rule list_files_in_table) auto

lemma set_objects_retval:
  "set (objects_retval cat protocol purposes model_ids groups classes subworld) =
     (if PStr ''world'' \<in> set groups then set (objects_world cat protocol subworld model_ids) else {})
   \<union> (if (PStr ''dev'' \<in> set groups \<or> PStr ''eval'' \<in> set groups) \<and> PStr ''enrol'' \<in> set purposes
      then set (objects_enrol cat protocol groups model_ids) else {})
   \<union> (if (PStr ''dev'' \<in> set groups \<or> PStr ''eval'' \<in> set groups) \<and> PStr ''probe'' \<in> set purposes
          \<and> PStr ''client'' \<in> set classes
      then set (objects_probe_client cat protocol groups model_ids) else {})
   \<union> (if (PStr ''dev'' \<in> set groups \<or> PStr ''eval'' \<in> set groups) \<and> PStr ''probe'' \<in> set purposes
          \<and> PStr ''impostor'' \<in> set classes
      then set (objects_probe_impostor cat protocol groups model_ids) else {})"
  by (simp add: objects_retval_def list_set_def Let_def)

lemma distinct_objects_retval:
  "distinct (objects_retval cat protocol purposes model_ids groups classes subworld)"
  by (simp add: objects_retval_def list_set_def Let_def)

lemma objects_retval_in_table:
  "set (objects_retval cat protocol purposes model_ids groups classes subworld) \<subseteq> set (file_table cat)"
  using objects_world_in_table [of cat protocol subworld model_ids]
        objects_enrol_in_table [of cat protocol groups model_ids]
        objects_probe_client_in_table [of cat protocol groups model_ids]
        objects_probe_impostor_in_table [of cat protocol groups model_ids]
  by (simp add: set_objects_retval)

lemma ebind_Inr_iff: "(ebind m f = Inr y) = (\<exists>x. m = Inr x \<and> f x = Inr y)"
  by (cases m) simp_all

lemma objects_Some:
  assumes "session self = Some cat"
    and "objects self protocol purposes model_ids groups classes subworld = Inr fs"
  shows "\<exists>VP VS ps pu gs cl sws.
           protocol_names self = Inr VP \<and> subworld_names self = Inr VS \<and>
           check_validity protocol ''protocol'' VP VP = Inr ps \<and>
           check_validity purposes ''purpose'' purpose_choices purpose_choices = Inr pu \<and>
           check_validity groups ''group'' group_choices group_choices = Inr gs \<and>
           check_validity classes ''class'' [PStr ''client'', PStr ''impostor'']
             [PStr ''client'', PStr ''impostor''] = Inr cl \<and>
           check_validity subworld ''subworld'' VS [] = Inr sws \<and>
           fs = objects_retval cat ps pu (model_id_seq model_ids) gs cl sws"
  using assms
  by (simp add: objects_def protocol_names_Some subworld_names_Some Database_purposes_def
        Database_groups_def Let_def ebind_Inr_iff) blast

lemma objects_retval_unique:
  assumes "session self = Some cat"
    and "objects self protocol purposes model_ids groups classes subworld = Inr fs"
    and "protocol_names self = Inr VP"
    and "check_validity protocol ''protocol'' VP VP = Inr ps"
    and "check_validity purposes ''purpose'' purpose_choices purpose_choices = Inr pu"
    and "check_validity groups ''group'' group_choices group_choices = Inr gs"
    and "check_validity classes ''class'' [PStr ''client'', PStr ''impostor'']
           [PStr ''client'', PStr ''impostor''] = Inr cl"
  shows "\<exists>sws. fs = objects_retval cat ps pu (model_id_seq model_ids) gs cl sws"
  using objects_Some [OF assms(1) assms(2)] assms(3-7) by auto

lemma impostor_single:
  "f \<in> set (objects_probe_impostor cat protocol groups [m]) \<Longrightarrow> f_client_id f \<noteq> m"
  by (auto simp add: objects_probe_impostor_def)

lemma impostor_all:
  "length model_ids \<noteq> 1 \<Longrightarrow>
   set (objects_probe_impostor cat protocol groups model_ids) =
     {f \<in> set (file_table cat).
        \<exists>c \<in> set (client_table cat). \<exists>pp \<in> set (protocolPurpose_table cat).
        \<exists>p \<in> set (protocol_table cat).
          c_id c = f_client_id f \<and>
          (pp_id pp, f_id f) \<in> set (protocolPurpose_file_association cat) \<and>
          p_id p = pp_protocol_id pp \<and>
          PStr (p_name p) \<in> set protocol \<and> PStr (pp_sgroup pp) \<in> set groups \<and>
          pp_purpose pp = ''probe''}"
  (is "_ \<Longrightarrow> ?L = ?R")
proof -
  assume n: "length model_ids \<noteq> 1"
  show "?L = ?R"
  proof (intro set_eqI iffI)
    fix f assume "f \<in> ?L"
    with n obtain c pp p where "(f, c, pp, p) \<in> set (file_rows cat)"
      and "PStr (p_name p) \<in> set protocol" "PStr (pp_sgroup pp) \<in> set groups"
          "pp_purpose pp = ''probe''"
      by (auto simp add: objects_probe_impostor_def)
    then show "f \<in> ?R" by (auto simp add: mem_file_rows)
  next
    fix f assume "f \<in> ?R"
    then obtain c pp p where "(f, c, pp, p) \<in> set (file_rows cat)"
      and "PStr (p_name p) \<in> set protocol" "PStr (pp_sgroup pp) \<in> set groups"
          "pp_purpose pp = ''probe''"
      by (auto simp add: mem_file_rows)
    with n show "f \<in> ?L" by (force simp add: objects_probe_impostor_def)
  qed
qed

subsection \<open>C3: no file is returned twice\<close>

text \<open>
  Claim C3. On a store whose file identifiers are unique, the list \<open>objects\<close>
  returns holds no file identifier twice, whichever of the four branches added to the
  accumulated list.
\<close>

theorem objects_no_duplicates:
  assumes "session self = Some cat"
    and "distinct (map f_id (file_table cat))"
    and "objects self protocol purposes model_ids groups classes subworld = Inr fs"
  shows "distinct (map f_id fs)"
proof -
  from objects_Some [OF assms(1) assms(3)] obtain ps pu gs cl sws where
    fs: "fs = objects_retval cat ps pu (model_id_seq model_ids) gs cl sws"
    by blast
  have d: "distinct fs" unfolding fs by (rule distinct_objects_retval)
  have sub: "set fs \<subseteq> set (file_table cat)" unfolding fs by (rule objects_retval_in_table)
  from assms(2) have "inj_on f_id (set (file_table cat))" by (simp add: distinct_map)
  then have "inj_on f_id (set fs)" using sub by (rule inj_on_subset)
  with d show ?thesis by (simp add: distinct_map)
qed


text \<open>
  The probe files of the group dev on the small catalogue: file 11 is attached to the
  probe purposes of both protocols and is selected by the client and by the impostor
  branch, and is returned once.
\<close>

theorem objects_no_duplicates_witness:
  "distinct (map f_id (file_table example_catalogue)) \<and>
   objects example_database PNone (PStr ''probe'') IdsNone (PStr ''dev'') PNone PNone
     = Inr [\<lparr>f_id = 11, f_client_id = 2, f_path = ''b'', f_camera = ''cam1'', f_distance = ''1''\<rparr>] \<and>
   distinct (map f_id
     [\<lparr>f_id = 11, f_client_id = 2, f_path = ''b'', f_camera = ''cam1'', f_distance = ''1''\<rparr>])"
proof -
  have s: "session example_database = Some example_catalogue" by simp
  have d: "distinct (map f_id (file_table example_catalogue))" by simp
  have o: "objects example_database PNone (PStr ''probe'') IdsNone (PStr ''dev'') PNone PNone
     = Inr [\<lparr>f_id = 11, f_client_id = 2, f_path = ''b'', f_camera = ''cam1'', f_distance = ''1''\<rparr>]"
    by code_simp
  from objects_no_duplicates [OF s d o] d o show ?thesis by blast
qed

subsection \<open>C1: the impostor branch\<close>

text \<open>
  Claim C1. Take a call of \<open>objects\<close> that returns, whose validated purposes hold
  \<^verbatim>\<open>'probe'\<close>, whose validated classes hold \<^verbatim>\<open>'impostor'\<close> and whose validated groups
  hold \<^verbatim>\<open>'dev'\<close> or \<^verbatim>\<open>'eval'\<close>. The files of the impostor branch are among the
  returned files. When the normalised model-id sequence is the single id \<open>m\<close>, no
  file of the branch is owned by client \<open>m\<close>. When it has no or several elements,
  the branch holds exactly the stored files that are attached, with their client, to
  a probe purpose of a selected group under a selected protocol: no client is
  excluded.
\<close>

theorem impostor_branch_exclusion:
  assumes "session self = Some cat"
    and "objects self protocol purposes model_ids groups classes subworld = Inr fs"
    and "protocol_names self = Inr VP"
    and "check_validity protocol ''protocol'' VP VP = Inr ps"
    and "check_validity purposes ''purpose'' purpose_choices purpose_choices = Inr pu"
    and "check_validity groups ''group'' group_choices group_choices = Inr gs"
    and "check_validity classes ''class'' [PStr ''client'', PStr ''impostor'']
           [PStr ''client'', PStr ''impostor''] = Inr cl"
    and "PStr ''probe'' \<in> set pu"
    and "PStr ''impostor'' \<in> set cl"
    and "PStr ''dev'' \<in> set gs \<or> PStr ''eval'' \<in> set gs"
  shows "set (objects_probe_impostor cat ps gs (model_id_seq model_ids)) \<subseteq> set fs \<and>
    (\<forall>m. model_id_seq model_ids = [m] \<longrightarrow>
       (\<forall>f \<in> set (objects_probe_impostor cat ps gs (model_id_seq model_ids)). f_client_id f \<noteq> m)) \<and>
    (length (model_id_seq model_ids) \<noteq> 1 \<longrightarrow>
       set (objects_probe_impostor cat ps gs (model_id_seq model_ids)) =
         {f \<in> set (file_table cat).
            \<exists>c \<in> set (client_table cat). \<exists>pp \<in> set (protocolPurpose_table cat).
            \<exists>p \<in> set (protocol_table cat).
              c_id c = f_client_id f \<and>
              (pp_id pp, f_id f) \<in> set (protocolPurpose_file_association cat) \<and>
              p_id p = pp_protocol_id pp \<and>
              PStr (p_name p) \<in> set ps \<and> PStr (pp_sgroup pp) \<in> set gs \<and>
              pp_purpose pp = ''probe''})"
proof (intro conjI allI impI)
  from objects_retval_unique [OF assms(1-7)] obtain sws where
    fs: "fs = objects_retval cat ps pu (model_id_seq model_ids) gs cl sws" by blast
  from assms(8-10) show "set (objects_probe_impostor cat ps gs (model_id_seq model_ids)) \<subseteq> set fs"
    unfolding fs by (simp add: set_objects_retval)
next
  fix m assume "model_id_seq model_ids = [m]"
  then show "\<forall>f \<in> set (objects_probe_impostor cat ps gs (model_id_seq model_ids)). f_client_id f \<noteq> m"
    by (simp add: impostor_single)
next
  assume "length (model_id_seq model_ids) \<noteq> 1"
  then show "set (objects_probe_impostor cat ps gs (model_id_seq model_ids)) =
         {f \<in> set (file_table cat).
            \<exists>c \<in> set (client_table cat). \<exists>pp \<in> set (protocolPurpose_table cat).
            \<exists>p \<in> set (protocol_table cat).
              c_id c = f_client_id f \<and>
              (pp_id pp, f_id f) \<in> set (protocolPurpose_file_association cat) \<and>
              p_id p = pp_protocol_id pp \<and>
              PStr (p_name p) \<in> set ps \<and> PStr (pp_sgroup pp) \<in> set gs \<and>
              pp_purpose pp = ''probe''}"
    by (rule impostor_all)
qed


text \<open>
  On the small catalogue: with the single model id 2 only file 12 of client 4 is left;
  with the two model ids 2 and 4 the files of both clients are returned.
\<close>

theorem impostor_branch_exclusion_witness:
  "objects example_database PNone (PStr ''probe'') (IdsScalar 2) PNone (PStr ''impostor'') PNone
     = Inr [\<lparr>f_id = 12, f_client_id = 4, f_path = ''c'', f_camera = ''cam1'', f_distance = ''1''\<rparr>] \<and>
   2 \<notin> f_client_id ` set (objects_probe_impostor example_catalogue
                               [PStr ''combined'', PStr ''close''] group_choices [2]) \<and>
   objects example_database PNone (PStr ''probe'') (IdsSeq [2, 4]) PNone (PStr ''impostor'') PNone
     = Inr [\<lparr>f_id = 11, f_client_id = 2, f_path = ''b'', f_camera = ''cam1'', f_distance = ''1''\<rparr>,
            \<lparr>f_id = 12, f_client_id = 4, f_path = ''c'', f_camera = ''cam1'', f_distance = ''1''\<rparr>] \<and>
   set (objects_probe_impostor example_catalogue [PStr ''combined'', PStr ''close'']
          group_choices [2, 4])
     \<subseteq> {\<lparr>f_id = 11, f_client_id = 2, f_path = ''b'', f_camera = ''cam1'', f_distance = ''1''\<rparr>,
         \<lparr>f_id = 12, f_client_id = 4, f_path = ''c'', f_camera = ''cam1'', f_distance = ''1''\<rparr>}"
proof -
  let ?VP = "[PStr ''combined'', PStr ''close'']"
  let ?cls = "[PStr ''client'', PStr ''impostor'']"
  have s: "session example_database = Some example_catalogue" by simp
  have o1: "objects example_database PNone (PStr ''probe'') (IdsScalar 2) PNone (PStr ''impostor'') PNone
     = Inr [\<lparr>f_id = 12, f_client_id = 4, f_path = ''c'', f_camera = ''cam1'', f_distance = ''1''\<rparr>]"
    by code_simp
  have o2: "objects example_database PNone (PStr ''probe'') (IdsSeq [2, 4]) PNone (PStr ''impostor'') PNone
     = Inr [\<lparr>f_id = 11, f_client_id = 2, f_path = ''b'', f_camera = ''cam1'', f_distance = ''1''\<rparr>,
            \<lparr>f_id = 12, f_client_id = 4, f_path = ''c'', f_camera = ''cam1'', f_distance = ''1''\<rparr>]"
    by code_simp
  have vp: "protocol_names example_database = Inr ?VP" by code_simp
  have ps: "check_validity PNone ''protocol'' ?VP ?VP = Inr ?VP" by code_simp
  have pu: "check_validity (PStr ''probe'') ''purpose'' purpose_choices purpose_choices = Inr [PStr ''probe'']"
    by code_simp
  have gs: "check_validity PNone ''group'' group_choices group_choices = Inr group_choices"
    by code_simp
  have cl: "check_validity (PStr ''impostor'') ''class'' ?cls ?cls = Inr [PStr ''impostor'']"
    by code_simp
  have a: "PStr ''probe'' \<in> set [PStr ''probe'']" by simp
  have b: "PStr ''impostor'' \<in> set [PStr ''impostor'']" by simp
  have c: "PStr ''dev'' \<in> set group_choices \<or> PStr ''eval'' \<in> set group_choices"
    by (simp add: group_choices_def)
  have e1: "\<forall>f \<in> set (objects_probe_impostor example_catalogue ?VP group_choices [2]).
              f_client_id f \<noteq> 2"
    using impostor_branch_exclusion [OF s o1 vp ps pu gs cl a b c] by simp
  have "set (objects_probe_impostor example_catalogue ?VP group_choices
               (model_id_seq (IdsSeq [2, 4])))
     \<subseteq> set [\<lparr>f_id = 11, f_client_id = 2, f_path = ''b'', f_camera = ''cam1'', f_distance = ''1''\<rparr>,
              \<lparr>f_id = 12, f_client_id = 4, f_path = ''c'', f_camera = ''cam1'', f_distance = ''1''\<rparr>]"
    using impostor_branch_exclusion [OF s o2 vp ps pu gs cl a b c] by (rule conjunct1)
  with o1 o2 e1 show ?thesis by auto
qed


section \<open>Selected clients\<close>

lemma set_list_clients [simp]: "set (list_clients rows) = set rows"
  by (simp add: list_clients_def)

lemma distinct_list_clients [simp]: "distinct (list_clients rows)"
  by (simp add: list_clients_def)

lemma sorted_list_clients [simp]: "sorted (map c_id (list_clients rows))"
  by (simp add: list_clients_def sorted_unique_list)

lemma mem_clients_world:
  "(c \<in> set (clients_world cat sws ges bys)) =
   (c \<in> set (client_table cat) \<and> c_sgroup c = ''world'' \<and>
    (sws \<noteq> [] \<longrightarrow> (\<exists>sw \<in> set (client_subworld cat c). PStr (sw_name sw) \<in> set sws)) \<and>
    (ges \<noteq> [] \<longrightarrow> PStr (c_gender c) \<in> set ges) \<and>
    (bys \<noteq> [] \<longrightarrow> PInt (c_birthyear c) \<in> set bys))"
  by (auto simp add: clients_world_def Let_def)

lemma mem_clients_dev_eval:
  "(c \<in> set (clients_dev_eval cat gs ges bys)) =
   (c \<in> set (client_table cat) \<and> c_sgroup c \<noteq> ''world'' \<and> PStr (c_sgroup c) \<in> set gs \<and>
    (ges \<noteq> [] \<longrightarrow> PStr (c_gender c) \<in> set ges) \<and>
    (bys \<noteq> [] \<longrightarrow> PInt (c_birthyear c) \<in> set bys))"
  by (auto simp add: clients_dev_eval_def Let_def)

lemma sorted_clients_world: "sorted (map c_id (clients_world cat sws ges bys))"
  by (simp add: clients_world_def Let_def)

lemma distinct_clients_world: "distinct (clients_world cat sws ges bys)"
  by (simp add: clients_world_def Let_def)

lemma sorted_clients_dev_eval: "sorted (map c_id (clients_dev_eval cat gs ges bys))"
  by (simp add: clients_dev_eval_def Let_def)

lemma distinct_clients_dev_eval: "distinct (clients_dev_eval cat gs ges bys)"
  by (simp add: clients_dev_eval_def Let_def)

lemma clients_Some:
  assumes "session self = Some cat"
    and "clients self protocol groups subworld gender birthyear = Inr cs"
  shows "\<exists>VP VS ps gs sws ges bys.
           protocol_names self = Inr VP \<and> subworld_names self = Inr VS \<and>
           check_validity protocol ''protocol'' VP VP = Inr ps \<and>
           check_validity groups ''group'' group_choices group_choices = Inr gs \<and>
           check_validity subworld ''subworld'' VS [] = Inr sws \<and>
           check_validity gender ''gender'' gender_choices [] = Inr ges \<and>
           check_validity birthyear ''birthyear'' VALID_BIRTHYEARS [] = Inr bys \<and>
           cs = (if PStr ''world'' \<in> set gs then clients_world cat sws ges bys else [])
              @ (if PStr ''dev'' \<in> set gs \<or> PStr ''eval'' \<in> set gs
                 then clients_dev_eval cat gs ges bys else [])"
proof -
  let ?VP = "map (\<lambda>k. PStr (p_name k)) (unique_list (protocol_table cat))"
  let ?VS = "map (\<lambda>k. PStr (sw_name k)) (unique_list (subworld_table cat))"
  from assms obtain ps gs sws ges bys where
    v: "check_validity protocol ''protocol'' ?VP ?VP = Inr ps"
       "check_validity groups ''group'' group_choices group_choices = Inr gs"
       "check_validity subworld ''subworld'' ?VS [] = Inr sws"
       "check_validity gender ''gender'' gender_choices [] = Inr ges"
       "check_validity birthyear ''birthyear'' VALID_BIRTHYEARS [] = Inr bys"
    and cs: "(if PStr ''dev'' \<in> set gs \<or> PStr ''eval'' \<in> set gs
         then (if PStr ''world'' \<in> set gs then [] @ clients_world cat sws ges bys else [])
                @ clients_dev_eval cat gs ges bys
         else (if PStr ''world'' \<in> set gs then [] @ clients_world cat sws ges bys else [])) = cs"
    by (simp add: clients_def protocol_names_Some subworld_names_Some Database_genders_def
          Database_groups_def Let_def ebind_Inr_iff split del: if_split) blast
  from cs have "cs = (if PStr ''world'' \<in> set gs then clients_world cat sws ges bys else [])
              @ (if PStr ''dev'' \<in> set gs \<or> PStr ''eval'' \<in> set gs
                 then clients_dev_eval cat gs ges bys else [])"
    by (auto split: if_splits)
  with v assms(1) show ?thesis
    by (simp add: protocol_names_Some subworld_names_Some)
qed

lemma check_validity_result:
  assumes "check_validity l obj valid dflt = Inr ks"
  shows "ks = dflt \<or> (ks \<noteq> [] \<and> set ks \<subseteq> set valid)"
proof (cases "truthy l")
  case False
  with assms show ?thesis by (simp add: check_validity_falsy)
next
  case True
  have seq: "xs = ks \<and> set ks \<subseteq> set valid"
    if "xs \<noteq> []" and "check_validity (PSeq xs) obj valid dflt = Inr ks" for xs
  proof (cases "set xs \<subseteq> set valid")
    case True
    then have "check_elements xs obj valid = Inr ()" by (simp add: check_elements_ok)
    with that True show ?thesis by (simp add: check_validity_seq)
  next
    case False
    from check_elements_fail [OF this, of obj] that show ?thesis
      by (auto simp add: check_validity_seq)
  qed
  show ?thesis
  proof (cases "is_tuple_or_list l")
    case True
    then obtain xs where l: "l = PSeq xs" by (cases l) auto
    with \<open>truthy l\<close> have ne: "xs \<noteq> []" by simp
    from seq [OF ne] ne assms l show ?thesis by auto
  next
    case False
    with \<open>truthy l\<close> assms have "check_validity (PSeq [l]) obj valid dflt = Inr ks"
      by (simp add: check_validity_scalar)
    with seq [of "[l]"] show ?thesis by auto
  qed
qed

lemma validated_groups:
  "check_validity groups ''group'' group_choices group_choices = Inr gs \<Longrightarrow>
   set gs \<subseteq> set group_choices"
  by (drule check_validity_result) auto


lemma clients_returns:
  assumes "session self = Some cat"
    and "protocol_names self = Inr VP"
    and "subworld_names self = Inr VS"
    and "check_validity protocol ''protocol'' VP VP = Inr ps"
    and "check_validity groups ''group'' group_choices group_choices = Inr gs"
    and "check_validity subworld ''subworld'' VS [] = Inr sws"
    and "check_validity gender ''gender'' gender_choices [] = Inr ges"
    and "check_validity birthyear ''birthyear'' VALID_BIRTHYEARS [] = Inr bys"
  shows "clients self protocol groups subworld gender birthyear =
     Inr ((if PStr ''world'' \<in> set gs then clients_world cat sws ges bys else [])
          @ (if PStr ''dev'' \<in> set gs \<or> PStr ''eval'' \<in> set gs
             then clients_dev_eval cat gs ges bys else []))"
  using assms
  by (simp add: clients_def Database_genders_def Database_groups_def Let_def)

lemma check_validity_dev:
  "check_validity (PStr ''dev'') ''group'' group_choices group_choices = Inr [PStr ''dev'']"
  by (simp add: check_validity_scalar check_validity_seq group_choices_def)

lemma check_validity_eval:
  "check_validity (PStr ''eval'') ''group'' group_choices group_choices = Inr [PStr ''eval'']"
  by (simp add: check_validity_scalar check_validity_seq group_choices_def)

lemma check_validity_PNone: "check_validity PNone obj valid dflt = Inr dflt"
  by (simp add: check_validity_falsy)

lemma check_validity_scalar_result:
  assumes "truthy l" and "\<not> is_tuple_or_list l"
    and "check_validity l obj valid dflt = Inr ks"
  shows "ks = [l]"
  using assms
  by (simp add: check_validity_scalar check_validity_seq ebind_Inr_iff)

lemma clients_world_call:
  assumes "session self = Some cat"
    and "clients self protocol (PStr ''world'') subworld PNone PNone = Inr cs"
  shows "\<exists>VS sws. subworld_names self = Inr VS \<and>
           check_validity subworld ''subworld'' VS [] = Inr sws \<and>
           cs = clients_world cat sws [] []"
  using clients_Some [OF assms]
  by (auto simp add: check_validity_world check_validity_PNone)

lemma subworld_assignment_world:
  assumes "subworld_assignment cat" and "c \<in> set (client_table cat)" and "c_sgroup c = ''world''"
  shows "\<exists>sw. client_subworld cat c = [sw] \<and> (sw_name sw = ''onethird'' \<or> sw_name sw = ''twothirds'')"
proof -
  from assms have "case client_subworld cat c of
                [sw] \<Rightarrow> sw_name sw = ''onethird'' \<or> sw_name sw = ''twothirds''
              | _ \<Rightarrow> False"
    by (auto simp add: subworld_assignment_def)
  then show ?thesis by (auto split: list.splits)
qed

subsection \<open>C6: what \<open>clients\<close> returns\<close>

text \<open>
  Claim C6, as amended. Take a call of \<open>clients\<close> that returns, with the validated
  selections \<open>gs\<close> (groups), \<open>sws\<close> (subworlds), \<open>ges\<close> (genders) and \<open>bys\<close> (birth
  years), an empty selection meaning no restriction. The returned clients are exactly
  the stored clients whose group is selected, whose gender and birth year are
  selected when such a selection is given, and, for clients of the world group only,
  who are attached to a selected subworld when a subworld selection is given; the
  subworld selection does not restrict the clients of dev and eval. The result is a
  world part followed by a part of the other groups, each sorted by client
  identifier, the two disjoint, and no client occurs twice. The calls for the single
  groups world, dev and eval with no other selection return, their results are
  pairwise disjoint, and together they hold the stored clients whose group is one of
  the three registered groups, which section 3 of the specification makes all of
  them.
\<close>

theorem clients_selection:
  assumes s: "session self = Some cat"
    and r: "clients self protocol groups subworld gender birthyear = Inr cs"
    and vs: "subworld_names self = Inr VS"
    and g: "check_validity groups ''group'' group_choices group_choices = Inr gs"
    and sw: "check_validity subworld ''subworld'' VS [] = Inr sws"
    and ge: "check_validity gender ''gender'' gender_choices [] = Inr ges"
    and bi: "check_validity birthyear ''birthyear'' VALID_BIRTHYEARS [] = Inr bys"
  shows "set cs =
      {c \<in> set (client_table cat).
         PStr (c_sgroup c) \<in> set gs \<and>
         (ges \<noteq> [] \<longrightarrow> PStr (c_gender c) \<in> set ges) \<and>
         (bys \<noteq> [] \<longrightarrow> PInt (c_birthyear c) \<in> set bys) \<and>
         (c_sgroup c = ''world'' \<and> sws \<noteq> [] \<longrightarrow>
            (\<exists>sw \<in> set (client_subworld cat c). PStr (sw_name sw) \<in> set sws))}
    \<and> (\<exists>ws ds. cs = ws @ ds \<and>
          (\<forall>c \<in> set ws. c_sgroup c = ''world'') \<and> (\<forall>c \<in> set ds. c_sgroup c \<noteq> ''world'') \<and>
          sorted (map c_id ws) \<and> sorted (map c_id ds) \<and> set ws \<inter> set ds = {} \<and> distinct cs)
    \<and> (\<exists>w d e.
          clients self protocol (PStr ''world'') PNone PNone PNone = Inr w \<and>
          clients self protocol (PStr ''dev'') PNone PNone PNone = Inr d \<and>
          clients self protocol (PStr ''eval'') PNone PNone PNone = Inr e \<and>
          set w \<inter> set d = {} \<and> set w \<inter> set e = {} \<and> set d \<inter> set e = {} \<and>
          set w \<union> set d \<union> set e
            = {c \<in> set (client_table cat). PStr (c_sgroup c) \<in> set group_choices})"
proof -
  from clients_Some [OF s r] vs g sw ge bi obtain VP ps where
    vp: "protocol_names self = Inr VP" and p: "check_validity protocol ''protocol'' VP VP = Inr ps"
    and cs: "cs = (if PStr ''world'' \<in> set gs then clients_world cat sws ges bys else [])
              @ (if PStr ''dev'' \<in> set gs \<or> PStr ''eval'' \<in> set gs
                 then clients_dev_eval cat gs ges bys else [])"
    by auto
  let ?ws = "if PStr ''world'' \<in> set gs then clients_world cat sws ges bys else []"
  let ?ds = "if PStr ''dev'' \<in> set gs \<or> PStr ''eval'' \<in> set gs
             then clients_dev_eval cat gs ges bys else []"
  from g have gsub: "set gs \<subseteq> set group_choices" by (rule validated_groups)
  have only: "PStr x \<in> set gs \<Longrightarrow> x \<noteq> ''world'' \<Longrightarrow> PStr ''dev'' \<in> set gs \<or> PStr ''eval'' \<in> set gs"
    for x
    using gsub by (auto simp add: group_choices_def)
  have part1: "set cs =
      {c \<in> set (client_table cat).
         PStr (c_sgroup c) \<in> set gs \<and>
         (ges \<noteq> [] \<longrightarrow> PStr (c_gender c) \<in> set ges) \<and>
         (bys \<noteq> [] \<longrightarrow> PInt (c_birthyear c) \<in> set bys) \<and>
         (c_sgroup c = ''world'' \<and> sws \<noteq> [] \<longrightarrow>
            (\<exists>sw \<in> set (client_subworld cat c). PStr (sw_name sw) \<in> set sws))}"
  proof (intro set_eqI iffI)
    fix c assume "c \<in> set cs"
    then show "c \<in> {c \<in> set (client_table cat).
         PStr (c_sgroup c) \<in> set gs \<and>
         (ges \<noteq> [] \<longrightarrow> PStr (c_gender c) \<in> set ges) \<and>
         (bys \<noteq> [] \<longrightarrow> PInt (c_birthyear c) \<in> set bys) \<and>
         (c_sgroup c = ''world'' \<and> sws \<noteq> [] \<longrightarrow>
            (\<exists>sw \<in> set (client_subworld cat c). PStr (sw_name sw) \<in> set sws))}"
      unfolding cs by (auto simp add: mem_clients_world mem_clients_dev_eval split: if_splits)
  next
    fix c assume c: "c \<in> {c \<in> set (client_table cat).
         PStr (c_sgroup c) \<in> set gs \<and>
         (ges \<noteq> [] \<longrightarrow> PStr (c_gender c) \<in> set ges) \<and>
         (bys \<noteq> [] \<longrightarrow> PInt (c_birthyear c) \<in> set bys) \<and>
         (c_sgroup c = ''world'' \<and> sws \<noteq> [] \<longrightarrow>
            (\<exists>sw \<in> set (client_subworld cat c). PStr (sw_name sw) \<in> set sws))}"
    show "c \<in> set cs"
    proof (cases "c_sgroup c = ''world''")
      case True
      with c show ?thesis unfolding cs by (simp add: mem_clients_world)
    next
      case False
      with c only [of "c_sgroup c"] show ?thesis unfolding cs by (simp add: mem_clients_dev_eval)
    qed
  qed
  have part2: "cs = ?ws @ ?ds \<and>
          (\<forall>c \<in> set ?ws. c_sgroup c = ''world'') \<and> (\<forall>c \<in> set ?ds. c_sgroup c \<noteq> ''world'') \<and>
          sorted (map c_id ?ws) \<and> sorted (map c_id ?ds) \<and> set ?ws \<inter> set ?ds = {} \<and> distinct cs"
    unfolding cs
    by (auto simp add: mem_clients_world mem_clients_dev_eval sorted_clients_world
          sorted_clients_dev_eval distinct_clients_world distinct_clients_dev_eval)
  let ?w = "clients_world cat [] [] []"
  let ?d = "clients_dev_eval cat [PStr ''dev''] [] []"
  let ?e = "clients_dev_eval cat [PStr ''eval''] [] []"
  have w: "clients self protocol (PStr ''world'') PNone PNone PNone = Inr ?w"
    using clients_returns [OF s vp vs p check_validity_world check_validity_PNone
            check_validity_PNone check_validity_PNone] by simp
  have d: "clients self protocol (PStr ''dev'') PNone PNone PNone = Inr ?d"
    using clients_returns [OF s vp vs p check_validity_dev check_validity_PNone
            check_validity_PNone check_validity_PNone] by simp
  have e: "clients self protocol (PStr ''eval'') PNone PNone PNone = Inr ?e"
    using clients_returns [OF s vp vs p check_validity_eval check_validity_PNone
            check_validity_PNone check_validity_PNone] by simp
  have wd: "set ?w \<inter> set ?d = {}"
    by (auto simp add: mem_clients_world mem_clients_dev_eval)
  have we: "set ?w \<inter> set ?e = {}"
    by (auto simp add: mem_clients_world mem_clients_dev_eval)
  have de: "set ?d \<inter> set ?e = {}"
    by (auto simp add: mem_clients_dev_eval)
  have un: "set ?w \<union> set ?d \<union> set ?e
            = {c \<in> set (client_table cat). PStr (c_sgroup c) \<in> set group_choices}"
    by (auto simp add: mem_clients_world mem_clients_dev_eval group_choices_def)
  show ?thesis
  proof (intro conjI)
    show "set cs =
      {c \<in> set (client_table cat).
         PStr (c_sgroup c) \<in> set gs \<and>
         (ges \<noteq> [] \<longrightarrow> PStr (c_gender c) \<in> set ges) \<and>
         (bys \<noteq> [] \<longrightarrow> PInt (c_birthyear c) \<in> set bys) \<and>
         (c_sgroup c = ''world'' \<and> sws \<noteq> [] \<longrightarrow>
            (\<exists>sw \<in> set (client_subworld cat c). PStr (sw_name sw) \<in> set sws))}"
      by (rule part1)
    show "\<exists>ws ds. cs = ws @ ds \<and>
          (\<forall>c \<in> set ws. c_sgroup c = ''world'') \<and> (\<forall>c \<in> set ds. c_sgroup c \<noteq> ''world'') \<and>
          sorted (map c_id ws) \<and> sorted (map c_id ds) \<and> set ws \<inter> set ds = {} \<and> distinct cs"
      by (rule exI [of _ ?ws], rule exI [of _ ?ds]) (rule part2)
    show "\<exists>w d e.
          clients self protocol (PStr ''world'') PNone PNone PNone = Inr w \<and>
          clients self protocol (PStr ''dev'') PNone PNone PNone = Inr d \<and>
          clients self protocol (PStr ''eval'') PNone PNone PNone = Inr e \<and>
          set w \<inter> set d = {} \<and> set w \<inter> set e = {} \<and> set d \<inter> set e = {} \<and>
          set w \<union> set d \<union> set e
            = {c \<in> set (client_table cat). PStr (c_sgroup c) \<in> set group_choices}"
      by (rule exI [of _ ?w], rule exI [of _ ?d], rule exI [of _ ?e])
         (intro conjI w d e wd we de un)
  qed
qed



text \<open>
  On the small catalogue, for the subworld \<^verbatim>\<open>onethird\<close> and the gender \<^verbatim>\<open>f\<close>: the
  world client 1 and the eval client 4 are returned.
\<close>

theorem clients_selection_witness:
  "clients example_database PNone PNone (PStr ''onethird'') (PStr ''f'') PNone
     = Inr [\<lparr>c_id = 1, c_sgroup = ''world'', c_gender = ''f'', c_birthyear = 1980\<rparr>,
            \<lparr>c_id = 4, c_sgroup = ''eval'', c_gender = ''f'', c_birthyear = 1980\<rparr>] \<and>
   set [\<lparr>c_id = 1, c_sgroup = ''world'', c_gender = ''f'', c_birthyear = 1980\<rparr>,
        \<lparr>c_id = 4, c_sgroup = ''eval'', c_gender = ''f'', c_birthyear = 1980\<rparr>] =
      {c \<in> set (client_table example_catalogue).
         PStr (c_sgroup c) \<in> set group_choices \<and>
         ([PStr ''f''] \<noteq> [] \<longrightarrow> PStr (c_gender c) \<in> set [PStr ''f'']) \<and>
         (([]::pyval list) \<noteq> [] \<longrightarrow> PInt (c_birthyear c) \<in> set []) \<and>
         (c_sgroup c = ''world'' \<and> [PStr ''onethird''] \<noteq> [] \<longrightarrow>
            (\<exists>sw \<in> set (client_subworld example_catalogue c).
               PStr (sw_name sw) \<in> set [PStr ''onethird'']))} \<and>
   (\<exists>w d e.
      clients example_database PNone (PStr ''world'') PNone PNone PNone = Inr w \<and>
      clients example_database PNone (PStr ''dev'') PNone PNone PNone = Inr d \<and>
      clients example_database PNone (PStr ''eval'') PNone PNone PNone = Inr e \<and>
      set w \<inter> set d = {} \<and> set w \<inter> set e = {} \<and> set d \<inter> set e = {} \<and>
      set w \<union> set d \<union> set e
        = {c \<in> set (client_table example_catalogue). PStr (c_sgroup c) \<in> set group_choices})"
proof -
  have s: "session example_database = Some example_catalogue" by simp
  have r: "clients example_database PNone PNone (PStr ''onethird'') (PStr ''f'') PNone
     = Inr [\<lparr>c_id = 1, c_sgroup = ''world'', c_gender = ''f'', c_birthyear = 1980\<rparr>,
            \<lparr>c_id = 4, c_sgroup = ''eval'', c_gender = ''f'', c_birthyear = 1980\<rparr>]"
    by code_simp
  have vs: "subworld_names example_database = Inr [PStr ''onethird'', PStr ''twothirds'']"
    by code_simp
  have g: "check_validity PNone ''group'' group_choices group_choices = Inr group_choices"
    by (rule check_validity_PNone)
  have sw: "check_validity (PStr ''onethird'') ''subworld'' [PStr ''onethird'', PStr ''twothirds''] []
              = Inr [PStr ''onethird'']"
    by code_simp
  have ge: "check_validity (PStr ''f'') ''gender'' gender_choices [] = Inr [PStr ''f'']"
    by code_simp
  have bi: "check_validity PNone ''birthyear'' VALID_BIRTHYEARS [] = Inr []"
    by (rule check_validity_PNone)
  note t = clients_selection [OF s r vs g sw ge bi]
  from t have t1: "set [\<lparr>c_id = 1, c_sgroup = ''world'', c_gender = ''f'', c_birthyear = 1980\<rparr>,
        \<lparr>c_id = 4, c_sgroup = ''eval'', c_gender = ''f'', c_birthyear = 1980\<rparr>] =
      {c \<in> set (client_table example_catalogue).
         PStr (c_sgroup c) \<in> set group_choices \<and>
         ([PStr ''f''] \<noteq> [] \<longrightarrow> PStr (c_gender c) \<in> set [PStr ''f'']) \<and>
         (([]::pyval list) \<noteq> [] \<longrightarrow> PInt (c_birthyear c) \<in> set []) \<and>
         (c_sgroup c = ''world'' \<and> [PStr ''onethird''] \<noteq> [] \<longrightarrow>
            (\<exists>sw \<in> set (client_subworld example_catalogue c).
               PStr (sw_name sw) \<in> set [PStr ''onethird'']))}"
    by (rule conjunct1)
  from t have t3: "\<exists>w d e.
      clients example_database PNone (PStr ''world'') PNone PNone PNone = Inr w \<and>
      clients example_database PNone (PStr ''dev'') PNone PNone PNone = Inr d \<and>
      clients example_database PNone (PStr ''eval'') PNone PNone PNone = Inr e \<and>
      set w \<inter> set d = {} \<and> set w \<inter> set e = {} \<and> set d \<inter> set e = {} \<and>
      set w \<union> set d \<union> set e
        = {c \<in> set (client_table example_catalogue). PStr (c_sgroup c) \<in> set group_choices}"
    by (rule conjunct2 [THEN conjunct2])
  show ?thesis by (intro conjI r t1 t3)
qed

text \<open>
  Claim C6 as stated fails on the subworld criterion: with all groups and the
  subworld \<^verbatim>\<open>onethird\<close> selected, the dev client 2 is returned although it is
  attached to no subworld.
\<close>

theorem clients_subworld_counterexample:
  "clients example_database PNone PNone (PStr ''onethird'') PNone PNone
     = Inr [\<lparr>c_id = 1, c_sgroup = ''world'', c_gender = ''f'', c_birthyear = 1980\<rparr>,
            \<lparr>c_id = 2, c_sgroup = ''dev'', c_gender = ''m'', c_birthyear = 1970\<rparr>,
            \<lparr>c_id = 4, c_sgroup = ''eval'', c_gender = ''f'', c_birthyear = 1980\<rparr>] \<and>
   client_subworld example_catalogue
     \<lparr>c_id = 2, c_sgroup = ''dev'', c_gender = ''m'', c_birthyear = 1970\<rparr> = []"
  by code_simp

subsection \<open>C7: the two subworlds split the world clients\<close>

text \<open>
  Claim C7. On a catalogue in which every world client is attached to exactly one of
  the subworlds \<^verbatim>\<open>onethird\<close> and \<^verbatim>\<open>twothirds\<close>, the world clients of \<^verbatim>\<open>onethird\<close> and
  those of \<^verbatim>\<open>twothirds\<close> are disjoint, and together they are the clients returned
  for the world group with no subworld selected.
\<close>

theorem world_subworlds_partition:
  assumes s: "session self = Some cat"
    and inv: "subworld_assignment cat"
    and a: "clients self protocol (PStr ''world'') (PStr ''onethird'') PNone PNone = Inr a"
    and b: "clients self protocol (PStr ''world'') (PStr ''twothirds'') PNone PNone = Inr b"
    and w: "clients self protocol (PStr ''world'') PNone PNone PNone = Inr w"
  shows "set a \<inter> set b = {} \<and> set a \<union> set b = set w"
proof -
  from clients_world_call [OF s a] obtain VSa swsa where
    "check_validity (PStr ''onethird'') ''subworld'' VSa [] = Inr swsa"
    and "a = clients_world cat swsa [] []"
    by blast
  moreover from this(1) have "swsa = [PStr ''onethird'']"
    by (rule check_validity_scalar_result [rotated 2]) simp_all
  ultimately have a': "a = clients_world cat [PStr ''onethird''] [] []" by simp
  from clients_world_call [OF s b] obtain VSb swsb where
    "check_validity (PStr ''twothirds'') ''subworld'' VSb [] = Inr swsb"
    and "b = clients_world cat swsb [] []"
    by blast
  moreover from this(1) have "swsb = [PStr ''twothirds'']"
    by (rule check_validity_scalar_result [rotated 2]) simp_all
  ultimately have b': "b = clients_world cat [PStr ''twothirds''] [] []" by simp
  from clients_world_call [OF s w] obtain VSw swsw where
    "check_validity PNone ''subworld'' VSw [] = Inr swsw"
    and "w = clients_world cat swsw [] []"
    by blast
  then have w': "w = clients_world cat [] [] []" by (simp add: check_validity_PNone)
  have disj: "set a \<inter> set b = {}"
  proof (rule ccontr)
    assume "set a \<inter> set b \<noteq> {}"
    then obtain c where ca: "c \<in> set a" and cb: "c \<in> set b" by blast
    from ca have c: "c \<in> set (client_table cat)" "c_sgroup c = ''world''"
      and one: "\<exists>sw \<in> set (client_subworld cat c). sw_name sw = ''onethird''"
      unfolding a' by (auto simp add: mem_clients_world)
    from cb have two: "\<exists>sw \<in> set (client_subworld cat c). sw_name sw = ''twothirds''"
      unfolding b' by (auto simp add: mem_clients_world)
    from subworld_assignment_world [OF inv c] obtain sw where "client_subworld cat c = [sw]"
      by blast
    with one two show False by simp
  qed
  have un: "set a \<union> set b = set w"
  proof (intro set_eqI iffI)
    fix c assume "c \<in> set a \<union> set b"
    then show "c \<in> set w" unfolding a' b' w' by (auto simp add: mem_clients_world)
  next
    fix c assume "c \<in> set w"
    then have c: "c \<in> set (client_table cat)" "c_sgroup c = ''world''"
      unfolding w' by (auto simp add: mem_clients_world)
    from subworld_assignment_world [OF inv c] obtain sw where
      "client_subworld cat c = [sw]" "sw_name sw = ''onethird'' \<or> sw_name sw = ''twothirds''"
      by blast
    with c show "c \<in> set a \<union> set b" unfolding a' b' by (auto simp add: mem_clients_world)
  qed
  from disj un show ?thesis by (rule conjI)
qed


text \<open>On the small catalogue client 1 is in \<^verbatim>\<open>onethird\<close> and client 3 in \<^verbatim>\<open>twothirds\<close>.\<close>

theorem world_subworlds_partition_witness:
  "subworld_assignment example_catalogue \<and>
   clients example_database PNone (PStr ''world'') (PStr ''onethird'') PNone PNone
     = Inr [\<lparr>c_id = 1, c_sgroup = ''world'', c_gender = ''f'', c_birthyear = 1980\<rparr>] \<and>
   clients example_database PNone (PStr ''world'') (PStr ''twothirds'') PNone PNone
     = Inr [\<lparr>c_id = 3, c_sgroup = ''world'', c_gender = ''m'', c_birthyear = 1975\<rparr>] \<and>
   clients example_database PNone (PStr ''world'') PNone PNone PNone
     = Inr [\<lparr>c_id = 1, c_sgroup = ''world'', c_gender = ''f'', c_birthyear = 1980\<rparr>,
            \<lparr>c_id = 3, c_sgroup = ''world'', c_gender = ''m'', c_birthyear = 1975\<rparr>] \<and>
   set [\<lparr>c_id = 1, c_sgroup = ''world'', c_gender = ''f'', c_birthyear = 1980\<rparr>]
     \<inter> set [\<lparr>c_id = 3, c_sgroup = ''world'', c_gender = ''m'', c_birthyear = 1975\<rparr>] = {} \<and>
   set [\<lparr>c_id = 1, c_sgroup = ''world'', c_gender = ''f'', c_birthyear = 1980\<rparr>]
     \<union> set [\<lparr>c_id = 3, c_sgroup = ''world'', c_gender = ''m'', c_birthyear = 1975\<rparr>]
     = set [\<lparr>c_id = 1, c_sgroup = ''world'', c_gender = ''f'', c_birthyear = 1980\<rparr>,
            \<lparr>c_id = 3, c_sgroup = ''world'', c_gender = ''m'', c_birthyear = 1975\<rparr>]"
proof -
  have s: "session example_database = Some example_catalogue" by simp
  have inv: "subworld_assignment example_catalogue" by code_simp
  have a: "clients example_database PNone (PStr ''world'') (PStr ''onethird'') PNone PNone
     = Inr [\<lparr>c_id = 1, c_sgroup = ''world'', c_gender = ''f'', c_birthyear = 1980\<rparr>]"
    by code_simp
  have b: "clients example_database PNone (PStr ''world'') (PStr ''twothirds'') PNone PNone
     = Inr [\<lparr>c_id = 3, c_sgroup = ''world'', c_gender = ''m'', c_birthyear = 1975\<rparr>]"
    by code_simp
  have w: "clients example_database PNone (PStr ''world'') PNone PNone PNone
     = Inr [\<lparr>c_id = 1, c_sgroup = ''world'', c_gender = ''f'', c_birthyear = 1980\<rparr>,
            \<lparr>c_id = 3, c_sgroup = ''world'', c_gender = ''m'', c_birthyear = 1975\<rparr>]"
    by code_simp
  note t = world_subworlds_partition [OF s inv a b w]
  show ?thesis by (intro conjI inv a b w t [THEN conjunct1] t [THEN conjunct2])
qed


section \<open>Clients of the normalisation cohorts\<close>

subsection \<open>C8: T-norm and Z-norm clients\<close>

text \<open>
  Claim C8. For every protocol and every value of the groups argument, \<open>tclients\<close>
  and \<open>zclients\<close> return the same result, which is the result of \<open>clients\<close> for
  the group \<^verbatim>\<open>'world'\<close> and the subworld \<^verbatim>\<open>'onethird'\<close>, with no gender and no
  birth-year selection. When the call returns, the returned clients are exactly the
  stored clients of the world group that are attached to the subworld \<^verbatim>\<open>onethird\<close>.
\<close>

theorem tclients_zclients_same:
  "tclients self protocol groups = zclients self protocol groups \<and>
   tclients self protocol groups
     = clients self protocol (PStr ''world'') (PStr ''onethird'') PNone PNone \<and>
   (\<forall>cat cs. session self = Some cat \<and> tclients self protocol groups = Inr cs \<longrightarrow>
      set cs = {c \<in> set (client_table cat). c_sgroup c = ''world'' \<and>
                  (\<exists>sw \<in> set (client_subworld cat c). sw_name sw = ''onethird'')})"
proof (intro conjI allI impI)
  show "tclients self protocol groups = zclients self protocol groups"
    by (simp add: tclients_def zclients_def)
  show "tclients self protocol groups
     = clients self protocol (PStr ''world'') (PStr ''onethird'') PNone PNone"
    by (simp add: tclients_def)
next
  fix cat cs
  assume h: "session self = Some cat \<and> tclients self protocol groups = Inr cs"
  then have s: "session self = Some cat"
    and c: "clients self protocol (PStr ''world'') (PStr ''onethird'') PNone PNone = Inr cs"
    by (simp_all add: tclients_def)
  from clients_world_call [OF s c] obtain VS sws where
    "check_validity (PStr ''onethird'') ''subworld'' VS [] = Inr sws"
    and "cs = clients_world cat sws [] []"
    by blast
  moreover from this(1) have "sws = [PStr ''onethird'']"
    by (rule check_validity_scalar_result [rotated 2]) simp_all
  ultimately have cs: "cs = clients_world cat [PStr ''onethird''] [] []" by simp
  show "set cs = {c \<in> set (client_table cat). c_sgroup c = ''world'' \<and>
                  (\<exists>sw \<in> set (client_subworld cat c). sw_name sw = ''onethird'')}"
    unfolding cs by (auto simp add: mem_clients_world)
qed

text \<open>On the small catalogue both cohorts are client 1, the world client of \<^verbatim>\<open>onethird\<close>.\<close>

theorem tclients_zclients_same_witness:
  "tclients example_database PNone (PStr ''dev'')
     = Inr [\<lparr>c_id = 1, c_sgroup = ''world'', c_gender = ''f'', c_birthyear = 1980\<rparr>] \<and>
   zclients example_database PNone (PStr ''dev'')
     = Inr [\<lparr>c_id = 1, c_sgroup = ''world'', c_gender = ''f'', c_birthyear = 1980\<rparr>] \<and>
   set [\<lparr>c_id = 1, c_sgroup = ''world'', c_gender = ''f'', c_birthyear = 1980\<rparr>]
     = {c \<in> set (client_table example_catalogue). c_sgroup c = ''world'' \<and>
          (\<exists>sw \<in> set (client_subworld example_catalogue c). sw_name sw = ''onethird'')}"
proof -
  have s: "session example_database = Some example_catalogue" by simp
  have t: "tclients example_database PNone (PStr ''dev'')
     = Inr [\<lparr>c_id = 1, c_sgroup = ''world'', c_gender = ''f'', c_birthyear = 1980\<rparr>]"
    by code_simp
  note th = tclients_zclients_same [of example_database PNone "PStr ''dev''"]
  from th t have z: "zclients example_database PNone (PStr ''dev'')
     = Inr [\<lparr>c_id = 1, c_sgroup = ''world'', c_gender = ''f'', c_birthyear = 1980\<rparr>]"
    by simp
  from th s t have e: "set [\<lparr>c_id = 1, c_sgroup = ''world'', c_gender = ''f'', c_birthyear = 1980\<rparr>]
     = {c \<in> set (client_table example_catalogue). c_sgroup c = ''world'' \<and>
          (\<exists>sw \<in> set (client_subworld example_catalogue c). sw_name sw = ''onethird'')}"
    by blast
  show ?thesis by (intro conjI t z e)
qed


subsection \<open>C10: the groups argument of the cohort clients\<close>

text \<open>
  Claim C10. \<open>tclients\<close> and \<open>zclients\<close> do not read their groups argument: any two
  values, valid group names or not, give the same result, and the result is never
  the Invalid Selector error of the group selector.
\<close>

theorem tclients_zclients_ignore_groups:
  "tclients self protocol g1 = tclients self protocol g2 \<and>
   zclients self protocol g1 = zclients self protocol g2 \<and>
   tclients self protocol g1 \<noteq> Inl (InvalidSelector ''group'' k v) \<and>
   zclients self protocol g1 \<noteq> Inl (InvalidSelector ''group'' k v)"
  by (simp add: tclients_def zclients_def clients_world_group_error)

end
